theory Spec2Isabelle
  imports Complex_Main
begin

section \<open>The client library: \<open>client/src/blockchain/contract.js\<close>\<close>

text \<open>
  The client talks to the deployed \<open>CrowdFunding\<close> contract through \<open>ethers\<close>. Library
  calls that are not part of the repository (\<open>ethers.parseEther\<close>, \<open>ethers.formatEther\<close>,
  \<open>parseFloat\<close>) are parameters of the functions that use them. A JavaScript exception is
  the left summand of a sum type; the error type \<open>'e\<close> is left open. Integer-valued
  JavaScript numbers and bigints are \<open>int\<close> or \<open>nat\<close>; the numbers that come out of
  \<open>parseFloat\<close> are \<open>real\<close>. A property that may be \<open>undefined\<close> is an \<open>option\<close>.
\<close>

type_synonym address = string

datatype donation = DonationString string | DonationWei nat

text \<open>The decoded struct that the contract returns for a campaign (\<open>campaignData\<close>).\<close>

record campaign_data =
  cd_owner :: address
  cd_title :: string
  cd_description :: string
  cd_target :: "nat option"
  cd_goal :: "nat option"
  cd_deadline :: int
  cd_amountCollected :: "nat option"
  cd_image :: "string option"
  cd_imageUrl :: "string option"
  cd_state :: "nat option"
  cd_donators :: "address list option"
  cd_donations :: "donation list option"

text \<open>The object types declared in \<open>App.tsx\<close>.\<close>

record Milestone =
  m_id :: string
  m_title :: string
  m_description :: string
  m_targetAmount :: real
  m_unlocked :: bool
  m_votesFor :: real
  m_votesAgainst :: real
  m_released :: bool

record Contribution =
  cn_id :: string
  cn_campaignId :: string
  cn_contributor :: string
  cn_amount :: real
  cn_currency :: string
  cn_timestamp :: real
  cn_txHash :: string
  cn_rewardTier :: "string option"

record RewardTier =
  rt_id :: string
  rt_title :: string
  rt_amount :: real
  rt_description :: string
  rt_backers :: real
  rt_maxBackers :: "real option"

text \<open>The object literal that \<open>formatCampaign\<close> returns.\<close>

record formatted_campaign =
  fc_id :: string
  fc_owner :: address
  fc_title :: string
  fc_description :: string
  fc_target :: string
  fc_goal :: string
  fc_deadline :: int
  fc_amountCollected :: string
  fc_raised :: string
  fc_image :: string
  fc_imageUrl :: string
  fc_donators :: "address list"
  fc_donations :: "string list"
  fc_status :: string
  fc_state :: "nat option"
  fc_creator :: address
  fc_currency :: string
  fc_category :: string
  fc_milestones :: "Milestone list"
  fc_contributions :: "Contribution list"
  fc_rewardTiers :: "RewardTier list"

text \<open>
  The handle \<open>new ethers.Contract(...)\<close>: one field for each contract method the client
  calls. \<open>contract_donateToCampaign\<close> takes the campaign id and the \<open>value\<close> override.
\<close>

record ('e, 'tx) contract =
  contract_createCampaign :: "address \<Rightarrow> string \<Rightarrow> string \<Rightarrow> int \<Rightarrow> int \<Rightarrow> string \<Rightarrow> 'e + 'tx"
  contract_donateToCampaign :: "nat \<Rightarrow> int \<Rightarrow> 'e + 'tx"
  contract_getCampaigns :: "nat \<Rightarrow> nat \<Rightarrow> 'e + campaign_data list"
  contract_getCampaign :: "nat \<Rightarrow> 'e + campaign_data"
  contract_finalizeCampaign :: "nat \<Rightarrow> 'e + 'tx"
  contract_withdrawFunds :: "nat \<Rightarrow> 'e + 'tx"
  contract_claimRefund :: "nat \<Rightarrow> 'e + 'tx"

subsection \<open>\<open>Number.prototype.toString\<close> on a non-negative integer\<close>

definition digit_char :: "nat \<Rightarrow> char" where
  "digit_char d = ''0123456789'' ! d"

fun toString :: "nat \<Rightarrow> string" where
  "toString n = (if n < 10 then [digit_char n] else toString (n div 10) @ [digit_char (n mod 10)])"

declare toString.simps [simp del]

subsection \<open>JavaScript numbers\<close>

text \<open>
  A JavaScript number is an IEEE 754 double: 53 significant bits, and every result of
  \<open>/\<close>, \<open>*\<close> and \<open>Number(bigint)\<close> is the exact result rounded to the nearest double, a
  tie going to the neighbour with an even significand. The numbers of the deadline
  conversion are integer-valued, so they are held as \<open>int\<close> and the rounding is written
  out. (Magnitudes from \<open>2 ^ 1024\<close> on, where a double overflows, do not occur: a
  deadline of the contract is a \<open>uint256\<close>.)

  \<open>bit_length n\<close> is the number of binary digits of \<open>n\<close>, and
  \<open>round_half_even a b\<close> is the integer nearest to \<open>a / b\<close> for \<open>0 \<le> a\<close> and \<open>0 < b\<close>, a tie
  going to the even one.
\<close>

fun bit_length :: "nat \<Rightarrow> nat" where
  "bit_length n = (if n = 0 then 0 else Suc (bit_length (n div 2)))"

declare bit_length.simps [simp del]

definition round_half_even :: "int \<Rightarrow> int \<Rightarrow> int" where
  "round_half_even a b =
     (let t = a div b; r = a mod b
      in if 2 * r < b then t
         else if b < 2 * r then t + 1
         else if even t then t else t + 1)"

text \<open>
  The double nearest to the integer \<open>n\<close>: an integer of at most 53 bits is a double; a
  longer one is rounded to a multiple of \<open>2 ^ k\<close>, where \<open>k\<close> is the number of bits beyond
  53. This is \<open>Number(n)\<close> for a bigint \<open>n\<close>, and the rounding of an integer product.
\<close>

definition to_double :: "int \<Rightarrow> int" where
  "to_double n =
     (let k = bit_length (nat \<bar>n\<bar>) - 53
      in sgn n * (round_half_even \<bar>n\<bar> (2 ^ k) * 2 ^ k))"

subsection \<open>\<open>createCampaign\<close> and \<open>donateToCampaign\<close>\<close>



definition donateToCampaign ::
  "('e + ('e, 'tx) contract) \<Rightarrow> (string \<Rightarrow> 'e + int) \<Rightarrow> nat \<Rightarrow> string \<Rightarrow> 'e + 'tx" where
  "donateToCampaign getContract parseEther campaignId amount =
     (case getContract of
        Inl e \<Rightarrow> Inl e
      | Inr contract \<Rightarrow>
          (case parseEther amount of
             Inl e \<Rightarrow> Inl e
           | Inr amountWei \<Rightarrow> contract_donateToCampaign contract campaignId amountWei))"

subsection \<open>\<open>formatCampaign\<close>\<close>

text \<open>\<open>a || b || 0\<close> on bigints: \<open>undefined\<close> and \<open>0n\<close> are falsy.\<close>

definition or_wei :: "nat option \<Rightarrow> nat option \<Rightarrow> nat" where
  "or_wei a b =
     (case a of
        Some x \<Rightarrow> (if x \<noteq> 0 then x else (case b of Some y \<Rightarrow> y | None \<Rightarrow> 0))
      | None \<Rightarrow> (case b of Some y \<Rightarrow> y | None \<Rightarrow> 0))"

text \<open>\<open>a || b || ''\<close> on strings: \<open>undefined\<close> and the empty string are falsy.\<close>

definition or_string :: "string option \<Rightarrow> string option \<Rightarrow> string" where
  "or_string a b =
     (case a of
        Some x \<Rightarrow> (if x \<noteq> [] then x else (case b of Some y \<Rightarrow> y | None \<Rightarrow> []))
      | None \<Rightarrow> (case b of Some y \<Rightarrow> y | None \<Rightarrow> []))"

text \<open>
  The parameters \<open>donators = []\<close> and \<open>donations = []\<close> take their default when the
  argument is \<open>undefined\<close>; an array is truthy, so \<open>donators || campaignData.donators || []\<close>
  is then always the parameter. The parameters \<open>id\<close> and \<open>image\<close> of the source are
  written \<open>ident\<close> and \<open>img\<close>. In \<open>Number(campaignData.deadline) * 1000\<close> the bigint is
  rounded to a double, and so is the product.
\<close>

definition formatCampaign ::
  "(nat \<Rightarrow> string) \<Rightarrow> campaign_data \<Rightarrow> nat \<Rightarrow> address list option \<Rightarrow> donation list option
   \<Rightarrow> formatted_campaign" where
  "formatCampaign formatEther campaignData ident donators_arg donations_arg =
     (let donators = (case donators_arg of None \<Rightarrow> [] | Some ds \<Rightarrow> ds);
          donations = (case donations_arg of None \<Rightarrow> [] | Some ds \<Rightarrow> ds);
          state = (case cd_state campaignData of Some st \<Rightarrow> st | None \<Rightarrow> 0);
          status = (if state = 1 then ''successful''
                    else if state = 2 then ''failed''
                    else if state = 3 then ''withdrawn''
                    else ''active'')
      in \<lparr> fc_id = toString ident,
           fc_owner = cd_owner campaignData,
           fc_title = cd_title campaignData,
           fc_description = cd_description campaignData,
           fc_target = formatEther (or_wei (cd_target campaignData) (cd_goal campaignData)),
           fc_goal = formatEther (or_wei (cd_target campaignData) (cd_goal campaignData)),
           fc_deadline = to_double (to_double (cd_deadline campaignData) * 1000),
           fc_amountCollected = formatEther (or_wei (cd_amountCollected campaignData) None),
           fc_raised = formatEther (or_wei (cd_amountCollected campaignData) None),
           fc_image = or_string (cd_image campaignData) (cd_imageUrl campaignData),
           fc_imageUrl = or_string (cd_image campaignData) (cd_imageUrl campaignData),
           fc_donators = donators,
           fc_donations =
             map (\<lambda>d. case d of DonationString str \<Rightarrow> str | DonationWei w \<Rightarrow> formatEther w)
               donations,
           fc_status = status,
           fc_state = Some state,
           fc_creator = cd_owner campaignData,
           fc_currency = ''MATIC'',
           fc_category = ''General'',
           fc_milestones = [],
           fc_contributions = [],
           fc_rewardTiers = [] \<rparr>)"

subsection \<open>\<open>getCampaigns\<close>, \<open>getCampaign\<close> and the transaction wrappers\<close>

text \<open>
  \<open>getCampaigns(offset = 0, limit = 20)\<close>: an argument left out is \<open>None\<close>. The callback of
  \<open>campaigns.map\<close> receives the element and its index in the returned array.
\<close>

definition getCampaigns ::
  "('e + ('e, 'tx) contract) \<Rightarrow> (nat \<Rightarrow> string) \<Rightarrow> nat option \<Rightarrow> nat option
   \<Rightarrow> 'e + formatted_campaign list" where
  "getCampaigns getContractReadOnly formatEther offset_arg limit_arg =
     (let offset = (case offset_arg of None \<Rightarrow> 0 | Some v \<Rightarrow> v);
          limit = (case limit_arg of None \<Rightarrow> 20 | Some v \<Rightarrow> v)
      in case getContractReadOnly of
           Inl e \<Rightarrow> Inl e
         | Inr contract \<Rightarrow>
             (case contract_getCampaigns contract offset limit of
                Inl e \<Rightarrow> Inl e
              | Inr campaigns \<Rightarrow>
                  Inr (map (\<lambda>(index, campaign).
                              formatCampaign formatEther campaign index
                                (cd_donators campaign) (cd_donations campaign))
                        (enumerate 0 campaigns))))"

definition getCampaign ::
  "('e + ('e, 'tx) contract) \<Rightarrow> (nat \<Rightarrow> string) \<Rightarrow> nat \<Rightarrow> 'e + formatted_campaign" where
  "getCampaign getContractReadOnly formatEther campaignId =
     (case getContractReadOnly of
        Inl e \<Rightarrow> Inl e
      | Inr contract \<Rightarrow>
          (case contract_getCampaign contract campaignId of
             Inl e \<Rightarrow> Inl e
           | Inr campaign \<Rightarrow>
               Inr (formatCampaign formatEther campaign campaignId
                      (cd_donators campaign) (cd_donations campaign))))"

definition finalizeCampaign :: "('e + ('e, 'tx) contract) \<Rightarrow> nat \<Rightarrow> 'e + 'tx" where
  "finalizeCampaign getContract campaignId =
     (case getContract of
        Inl e \<Rightarrow> Inl e
      | Inr contract \<Rightarrow> contract_finalizeCampaign contract campaignId)"

definition withdrawFunds :: "('e + ('e, 'tx) contract) \<Rightarrow> nat \<Rightarrow> 'e + 'tx" where
  "withdrawFunds getContract campaignId =
     (case getContract of
        Inl e \<Rightarrow> Inl e
      | Inr contract \<Rightarrow> contract_withdrawFunds contract campaignId)"

definition claimRefund :: "('e + ('e, 'tx) contract) \<Rightarrow> nat \<Rightarrow> 'e + 'tx" where
  "claimRefund getContract campaignId =
     (case getContract of
        Inl e \<Rightarrow> Inl e
      | Inr contract \<Rightarrow> contract_claimRefund contract campaignId)"

section \<open>The application: \<open>client/src/App.tsx\<close>\<close>

record Campaign =
  ac_id :: string
  ac_title :: string
  ac_creator :: string
  ac_description :: string
  ac_goal :: real
  ac_raised :: real
  ac_currency :: string
  ac_deadline :: int
  ac_category :: string
  ac_imageUrl :: string
  ac_milestones :: "Milestone list"
  ac_contributions :: "Contribution list"
  ac_status :: string
  ac_rewardTiers :: "RewardTier list"

text \<open>
  The callback of \<open>blockchainCampaigns.map\<close> in \<open>loadCampaigns\<close>. \<open>now\<close> is the value of
  \<open>Date.now()\<close>. The \<open>else\<close> branch is the fallback taken when \<open>bc.state\<close> is
  \<open>undefined\<close>.
\<close>

definition transformCampaign :: "(string \<Rightarrow> real) \<Rightarrow> int \<Rightarrow> formatted_campaign \<Rightarrow> Campaign" where
  "transformCampaign parseFloat now bc =
     (let deadline = fc_deadline bc;
          status =
            (case fc_state bc of
               Some state \<Rightarrow>
                 (if state = 0 then ''active''
                  else if state = 1 then ''successful''
                  else if state = 2 then ''failed''
                  else if state = 3 then ''withdrawn''
                  else ''active'')
             | None \<Rightarrow>
                 (if deadline < now then ''failed''
                  else if parseFloat (fc_amountCollected bc) \<ge> parseFloat (fc_target bc)
                       then ''successful''
                  else ''active''))
      in \<lparr> ac_id = fc_id bc,
           ac_title = fc_title bc,
           ac_creator = fc_owner bc,
           ac_description = fc_description bc,
           ac_goal = parseFloat (fc_target bc),
           ac_raised = parseFloat (fc_amountCollected bc),
           ac_currency = ''ETH'',
           ac_deadline = deadline,
           ac_category = ''Blockchain'',
           ac_imageUrl =
             (if fc_image bc \<noteq> [] then fc_image bc
              else ''https://images.unsplash.com/photo-1639762681485-074b7f938ba0?w=800''),
           ac_milestones = [],
           ac_contributions = [],
           ac_status = status,
           ac_rewardTiers = [] \<rparr>)"

text \<open>
  The React state that \<open>loadCampaigns\<close> writes. The function reads \<open>isUnmounted.current\<close>
  on entry (\<open>u1\<close>), after the fetch (\<open>u2\<close>), before \<open>setCampaigns\<close> or in the \<open>catch\<close>
  block (\<open>u3\<close>) and in \<open>finally\<close> (\<open>u4\<close>). \<open>isCorrectNetwork\<close> is the result of
  \<open>isLocalNetwork()\<close>, which catches its own errors and returns a boolean;
  \<open>formatError\<close> gives the message shown for an error, and \<open>now\<close> is \<open>Date.now()\<close>.
\<close>

record app_state =
  campaigns :: "Campaign list"
  networkError :: string
  loadingCampaigns :: bool
  loading :: bool

definition finally_block :: "bool \<Rightarrow> app_state \<Rightarrow> app_state" where
  "finally_block u4 st = (if \<not> u4 then st\<lparr>loadingCampaigns := False, loading := False\<rparr> else st)"

definition loadCampaigns ::
  "bool \<Rightarrow> bool \<Rightarrow> bool \<Rightarrow> bool \<Rightarrow> bool \<Rightarrow> ('e + ('e, 'tx) contract) \<Rightarrow>
   (nat \<Rightarrow> string) \<Rightarrow> (string \<Rightarrow> real) \<Rightarrow> ('e \<Rightarrow> string) \<Rightarrow> int \<Rightarrow> app_state \<Rightarrow> app_state" where
  "loadCampaigns u1 u2 u3 u4 isCorrectNetwork getContractReadOnly formatEther parseFloat
     formatError now st =
     (if u1 then st
      else
        (let st1 = st\<lparr>loadingCampaigns := True, networkError := []\<rparr>
         in if \<not> isCorrectNetwork
            then finally_block u4
                   (st1\<lparr>networkError := ''Please switch to Localhost testnet'',
                        campaigns := []\<rparr>)
            else
              (case getCampaigns getContractReadOnly formatEther None None of
                 Inl e \<Rightarrow>
                   finally_block u4
                     (if \<not> u3 then st1\<lparr>networkError := formatError e\<rparr> else st1)
               | Inr blockchainCampaigns \<Rightarrow>
                   (if u2 then finally_block u4 st1
                    else
                      (let transformedCampaigns =
                             map (transformCampaign parseFloat now) blockchainCampaigns
                       in finally_block u4
                            (if \<not> u3 then st1\<lparr>campaigns := transformedCampaigns\<rparr>
                             else st1))))))"

section \<open>The escrow contract \<open>CrowdFunding\<close>\<close>

text \<open>
  The client calls a deployed contract \<open>CrowdFunding\<close> whose Solidity source and ABI are
  not among the files of the client. Its operations are therefore written down from the
  specification (sections 3 to 7), one definition for each operation, with the checks in
  the order in which the specification lists them. Amounts and timestamps are \<open>nat\<close>
  (the contract's unsigned integers; Solidity 0.8 reverts on overflow, which no sum of
  real balances reaches).
\<close>

text \<open>Modelled from the spec: the lifecycle states of section 4.3, in the order of the
  comment \<open>0=Active, 1=Successful, 2=Failed, 3=Withdrawn\<close> of \<open>formatCampaign\<close>.\<close>

datatype CampaignState = Active | Successful | Failed | Withdrawn

text \<open>Modelled from the spec: the numeric value of each state of the contract's enum, as the
  comment of \<open>formatCampaign\<close> gives it.\<close>

fun state_code :: "CampaignState \<Rightarrow> nat" where
  "state_code Active = 0"
| "state_code Successful = 1"
| "state_code Failed = 2"
| "state_code Withdrawn = 3"

text \<open>Modelled from the spec: the error taxonomy of section 7.\<close>

datatype error =
    InvalidParameters | NotFound | CampaignNotActive | AlreadyFinalized | NotSuccessful
  | NotFailed | AlreadyWithdrawn | NothingToRefund | Unauthorized | DeadlinePassed | TooEarly

text \<open>Modelled from the spec: the Campaign record of section 3, with the donor list that
  \<open>getCampaign\<close> and \<open>getDonators\<close> return (each contributor once).\<close>

record escrow_campaign =
  c_owner :: address
  c_title :: string
  c_description :: string
  c_image :: string
  c_target :: nat
  c_deadline :: nat
  c_amountCollected :: nat
  c_state :: CampaignState
  c_donators :: "address list"

text \<open>Modelled from the spec: the value of the mapping keyed by (campaignId, contributor),
  section 6.\<close>

record contribution_record =
  cumulativeAmount :: nat
  refundedFlag :: bool

text \<open>Modelled from the spec: the events of sections 4.1 and 4.3.\<close>

datatype event =
    CampaignCreated nat address nat nat
  | CampaignFinalized nat CampaignState

text \<open>Modelled from the spec: an outgoing transfer of section 4.4, with the campaign, the
  payee and the amount.\<close>

datatype transfer =
    Payout nat address nat
  | RefundPaid nat address nat

text \<open>Modelled from the spec: the persisted state of section 6 (the table of campaigns and
  the contribution mapping, which like every Solidity mapping is total with a zero
  default), together with the trace of events emitted and of transfers sent.\<close>

record store =
  registry :: "escrow_campaign list"
  ledger :: "nat \<times> address \<Rightarrow> contribution_record"
  events :: "event list"
  transfers :: "transfer list"

text \<open>Modelled from the spec: the contract right after deployment.\<close>

definition init_store :: store where
  "init_store =
     \<lparr> registry = [],
       ledger = (\<lambda>_. \<lparr>cumulativeAmount = 0, refundedFlag = False\<rparr>),
       events = [],
       transfers = [] \<rparr>"

subsection \<open>Campaign Registry (section 4.1)\<close>

text \<open>Modelled from the spec: the effect of a successful \<open>createCampaign\<close>: the campaign
  is stored under the next id, \<open>Active\<close> and with nothing collected, and the creation event
  is emitted.\<close>

definition add_campaign ::
  "address \<Rightarrow> string \<Rightarrow> string \<Rightarrow> nat \<Rightarrow> nat \<Rightarrow> string \<Rightarrow> store \<Rightarrow> store" where
  "add_campaign ownr ttl descr tgt dl img s =
     s\<lparr>registry := registry s @
          [\<lparr> c_owner = ownr, c_title = ttl, c_description = descr, c_image = img,
             c_target = tgt, c_deadline = dl, c_amountCollected = 0,
             c_state = Active, c_donators = [] \<rparr>],
       events := events s @ [CampaignCreated (length (registry s)) ownr tgt dl]\<rparr>"

text \<open>Modelled from the spec: \<open>createCampaign\<close> of section 4.1.\<close>

definition cf_createCampaign ::
  "nat \<Rightarrow> address \<Rightarrow> string \<Rightarrow> string \<Rightarrow> nat \<Rightarrow> nat \<Rightarrow> string \<Rightarrow> store \<Rightarrow> (error + nat) \<times> store" where
  "cf_createCampaign now ownr ttl descr tgt dl img s =
     (if tgt \<le> 0 \<or> dl \<le> now then (Inl InvalidParameters, s)
      else (Inr (length (registry s)), add_campaign ownr ttl descr tgt dl img s))"

text \<open>Modelled from the spec: \<open>getCampaign\<close> of section 4.1.\<close>

definition cf_getCampaign :: "nat \<Rightarrow> store \<Rightarrow> error + escrow_campaign" where
  "cf_getCampaign cid s =
     (if cid < length (registry s) then Inr (registry s ! cid) else Inl NotFound)"

text \<open>Modelled from the spec: \<open>numberOfCampaigns\<close> of section 4.1.\<close>

definition cf_numberOfCampaigns :: "store \<Rightarrow> nat" where
  "cf_numberOfCampaigns s = length (registry s)"

subsection \<open>Donation Ledger (section 4.2)\<close>

text \<open>Modelled from the spec: \<open>getContribution\<close> of section 4.2.\<close>

definition cf_getContribution :: "nat \<Rightarrow> address \<Rightarrow> store \<Rightarrow> nat" where
  "cf_getContribution cid contributor s = cumulativeAmount (ledger s (cid, contributor))"

text \<open>Modelled from the spec: the effect of a successful \<open>recordContribution\<close>: the amount
  is added to the contributor's cumulative total and to \<open>amountCollected\<close>, and a first-time
  contributor joins the donor list.\<close>

definition book_contribution :: "nat \<Rightarrow> address \<Rightarrow> nat \<Rightarrow> store \<Rightarrow> store" where
  "book_contribution cid contributor amount s =
     (let c = registry s ! cid;
          entry = ledger s (cid, contributor)
      in s\<lparr>registry := (registry s)
              [cid := c\<lparr>c_amountCollected := c_amountCollected c + amount,
                        c_donators :=
                          (if contributor \<in> set (c_donators c) then c_donators c
                           else c_donators c @ [contributor])\<rparr>],
           ledger := (ledger s)
              ((cid, contributor) :=
                 entry\<lparr>cumulativeAmount := cumulativeAmount entry + amount\<rparr>)\<rparr>)"

text \<open>Modelled from the spec: \<open>recordContribution\<close> of section 4.2, the contract side of
  \<open>donateToCampaign\<close>; \<open>amount\<close> is the value carried by the call, and the result is the
  contributor's new cumulative total.\<close>

definition cf_recordContribution ::
  "nat \<Rightarrow> nat \<Rightarrow> address \<Rightarrow> nat \<Rightarrow> store \<Rightarrow> (error + nat) \<times> store" where
  "cf_recordContribution now cid contributor amount s =
     (if \<not> cid < length (registry s) then (Inl NotFound, s)
      else if c_state (registry s ! cid) \<noteq> Active then (Inl CampaignNotActive, s)
      else if amount \<le> 0 then (Inl InvalidParameters, s)
      else if now \<ge> c_deadline (registry s ! cid) then (Inl DeadlinePassed, s)
      else (Inr (cumulativeAmount (ledger s (cid, contributor)) + amount),
            book_contribution cid contributor amount s))"

subsection \<open>Escrow State Machine (section 4.3)\<close>

text \<open>Modelled from the spec: the decision rule of \<open>finalize\<close>.\<close>

definition decide :: "escrow_campaign \<Rightarrow> CampaignState" where
  "decide c = (if c_amountCollected c \<ge> c_target c then Successful else Failed)"

text \<open>Modelled from the spec: the effect of a successful \<open>finalize\<close>: the state becomes the
  decision, and the finalized event carries it.\<close>

definition set_decision :: "nat \<Rightarrow> store \<Rightarrow> store" where
  "set_decision cid s =
     s\<lparr>registry := (registry s)[cid := (registry s ! cid)\<lparr>c_state := decide (registry s ! cid)\<rparr>],
       events := events s @ [CampaignFinalized cid (decide (registry s ! cid))]\<rparr>"

text \<open>Modelled from the spec: \<open>finalize\<close> of section 4.3.\<close>

definition cf_finalize :: "nat \<Rightarrow> nat \<Rightarrow> store \<Rightarrow> (error + CampaignState) \<times> store" where
  "cf_finalize now cid s =
     (if \<not> cid < length (registry s) then (Inl NotFound, s)
      else if c_state (registry s ! cid) \<noteq> Active then (Inl AlreadyFinalized, s)
      else if now < c_deadline (registry s ! cid) then (Inl TooEarly, s)
      else (Inr (decide (registry s ! cid)), set_decision cid s))"

subsection \<open>Fund Custody (section 4.4)\<close>

text \<open>Modelled from the spec: the checks of \<open>withdrawFunds\<close>, in the order of section 4.4;
  the result is the amount to pay, the campaign's \<open>amountCollected\<close>.\<close>

definition withdraw_check :: "nat \<Rightarrow> address \<Rightarrow> store \<Rightarrow> error + nat" where
  "withdraw_check cid caller s =
     (if \<not> cid < length (registry s) then Inl NotFound
      else if caller \<noteq> c_owner (registry s ! cid) then Inl Unauthorized
      else if c_state (registry s ! cid) \<noteq> Successful then Inl NotSuccessful
      else if c_state (registry s ! cid) = Withdrawn then Inl AlreadyWithdrawn
      else Inr (c_amountCollected (registry s ! cid)))"

text \<open>Modelled from the spec: the state transition of \<open>withdrawFunds\<close>.\<close>

definition mark_withdrawn :: "nat \<Rightarrow> store \<Rightarrow> store" where
  "mark_withdrawn cid s =
     s\<lparr>registry := (registry s)[cid := (registry s ! cid)\<lparr>c_state := Withdrawn\<rparr>]\<rparr>"

text \<open>Modelled from the spec: the checks of \<open>claimRefund\<close>, in the order of section 4.4;
  the result is the amount to pay, the caller's recorded cumulative contribution.\<close>

definition refund_check :: "nat \<Rightarrow> address \<Rightarrow> store \<Rightarrow> error + nat" where
  "refund_check cid caller s =
     (if \<not> cid < length (registry s) then Inl NotFound
      else if c_state (registry s ! cid) \<noteq> Failed then Inl NotFailed
      else if cumulativeAmount (ledger s (cid, caller)) = 0
              \<or> refundedFlag (ledger s (cid, caller)) then Inl NothingToRefund
      else Inr (cumulativeAmount (ledger s (cid, caller))))"

text \<open>Modelled from the spec: the refunded marker of \<open>claimRefund\<close>; the cumulative amount
  is kept.\<close>

definition mark_refunded :: "nat \<Rightarrow> address \<Rightarrow> store \<Rightarrow> store" where
  "mark_refunded cid caller s =
     s\<lparr>ledger := (ledger s)((cid, caller) := (ledger s (cid, caller))\<lparr>refundedFlag := True\<rparr>)\<rparr>"

text \<open>Modelled from the spec: the moment a transfer leaves the contract.\<close>

definition send_transfer :: "transfer \<Rightarrow> store \<Rightarrow> store" where
  "send_transfer t s = s\<lparr>transfers := transfers s @ [t]\<rparr>"

subsection \<open>Calls, and what a payee does while it is being paid\<close>

text \<open>Modelled from the spec: a call of a mutating operation (section 5). A transfer hands
  control to the payee, which may call the contract again before the transfer returns:
  \<open>WithdrawFunds\<close> and \<open>ClaimRefund\<close> carry the list of calls that the payee makes
  during the transfer (the empty list for an ordinary account).\<close>

datatype call =
    CreateCampaign address string string nat nat string
  | DonateToCampaign nat address nat
  | FinalizeCampaign nat
  | WithdrawFunds nat address "call list"
  | ClaimRefund nat address "call list"

text \<open>Modelled from the spec: the value an operation returns (section 6).\<close>

datatype retval = NewId nat | NewTotal nat | Decided CampaignState | Paid nat

text \<open>Modelled from the spec: the execution of one call at block time \<open>now\<close>. A failing call
  leaves the store as it was. \<open>withdrawFunds\<close> and \<open>claimRefund\<close> first change the state
  (\<open>mark_withdrawn\<close>, \<open>mark_refunded\<close>) and only then transfer; the payee's calls run during
  the transfer, each on the store its predecessor left, and a nested call that fails
  changes nothing. (A payee that makes the transfer itself fail undoes the whole call,
  which then is one more failing call; it is not a case of its own here.)\<close>

fun exec :: "nat \<Rightarrow> call \<Rightarrow> store \<Rightarrow> (error + retval) \<times> store"
and run_callback :: "nat \<Rightarrow> call list \<Rightarrow> store \<Rightarrow> store" where
  "exec now (CreateCampaign ownr ttl descr tgt dl img) s =
     (case cf_createCampaign now ownr ttl descr tgt dl img s of
        (r, s') \<Rightarrow> (map_sum (\<lambda>e. e) NewId r, s'))"
| "exec now (DonateToCampaign cid contributor amount) s =
     (case cf_recordContribution now cid contributor amount s of
        (r, s') \<Rightarrow> (map_sum (\<lambda>e. e) NewTotal r, s'))"
| "exec now (FinalizeCampaign cid) s =
     (case cf_finalize now cid s of
        (r, s') \<Rightarrow> (map_sum (\<lambda>e. e) Decided r, s'))"
| "exec now (WithdrawFunds cid caller cb) s =
     (case withdraw_check cid caller s of
        Inl e \<Rightarrow> (Inl e, s)
      | Inr amount \<Rightarrow>
          (Inr (Paid amount),
           run_callback now cb
             (send_transfer (Payout cid (c_owner (registry s ! cid)) amount)
                (mark_withdrawn cid s))))"
| "exec now (ClaimRefund cid caller cb) s =
     (case refund_check cid caller s of
        Inl e \<Rightarrow> (Inl e, s)
      | Inr amount \<Rightarrow>
          (Inr (Paid amount),
           run_callback now cb
             (send_transfer (RefundPaid cid caller amount)
                (mark_refunded cid caller s))))"
| "run_callback now [] s = s"
| "run_callback now (c # cs) s = run_callback now cs (snd (exec now c s))"

text \<open>Modelled from the spec: a history of the contract, a list of calls with their block
  times, run from a given store.\<close>

fun run_calls :: "(nat \<times> call) list \<Rightarrow> store \<Rightarrow> store" where
  "run_calls [] s = s"
| "run_calls ((now, c) # tr) s = run_calls tr (snd (exec now c s))"

subsection \<open>What the trace of transfers says\<close>

text \<open>The payouts to an owner that the trace holds for campaign \<open>cid\<close>, as payee and
  amount, oldest first.\<close>

fun payouts :: "nat \<Rightarrow> transfer list \<Rightarrow> (address \<times> nat) list" where
  "payouts cid [] = []"
| "payouts cid (Payout c a v # ts) = (if c = cid then (a, v) # payouts cid ts else payouts cid ts)"
| "payouts cid (RefundPaid c a v # ts) = payouts cid ts"

text \<open>The refunds that the trace holds for campaign \<open>cid\<close>, as payee and amount.\<close>

fun refunds :: "nat \<Rightarrow> transfer list \<Rightarrow> (address \<times> nat) list" where
  "refunds cid [] = []"
| "refunds cid (Payout c a v # ts) = refunds cid ts"
| "refunds cid (RefundPaid c a v # ts) =
     (if c = cid then (a, v) # refunds cid ts else refunds cid ts)"

text \<open>The amounts refunded to contributor \<open>a\<close> for campaign \<open>cid\<close>.\<close>

definition refunds_to :: "nat \<Rightarrow> address \<Rightarrow> transfer list \<Rightarrow> nat list" where
  "refunds_to cid a ts = map snd (filter (\<lambda>p. fst p = a) (refunds cid ts))"

text \<open>The sum of all refunds paid for campaign \<open>cid\<close>.\<close>

definition total_refunded :: "nat \<Rightarrow> store \<Rightarrow> nat" where
  "total_refunded cid s = sum_list (map snd (refunds cid (transfers s)))"

text \<open>The sum of the recorded contributions of the donors of \<open>cid\<close> who have not been
  refunded.\<close>

definition outstanding :: "nat \<Rightarrow> store \<Rightarrow> nat" where
  "outstanding cid s =
     (\<Sum>a\<leftarrow>c_donators (registry s ! cid).
        if refundedFlag (ledger s (cid, a)) then 0 else cumulativeAmount (ledger s (cid, a)))"

subsection \<open>Query Layer (section 4.5) and the decoded results\<close>

text \<open>Modelled from the spec: \<open>getCampaigns\<close> of section 4.5, the slice of the registry that
  starts at \<open>offset\<close> and has at most \<open>limit\<close> campaigns.\<close>

definition cf_getCampaigns :: "nat \<Rightarrow> nat \<Rightarrow> store \<Rightarrow> escrow_campaign list" where
  "cf_getCampaigns offset limit s = take limit (drop offset (registry s))"

text \<open>Modelled from the spec: the summary of a campaign as \<open>ethers\<close> decodes it for the
  client: every field of the campaign but no contributor lists (section 4.5).\<close>

definition campaign_info :: "escrow_campaign \<Rightarrow> campaign_data" where
  "campaign_info c =
     \<lparr> cd_owner = c_owner c, cd_title = c_title c, cd_description = c_description c,
       cd_target = Some (c_target c), cd_goal = None, cd_deadline = int (c_deadline c),
       cd_amountCollected = Some (c_amountCollected c), cd_image = Some (c_image c),
       cd_imageUrl = None, cd_state = Some (state_code (c_state c)),
       cd_donators = None, cd_donations = None \<rparr>"

text \<open>Modelled from the spec: the full campaign that \<open>getCampaign\<close> returns, with the donor
  list and each donor's cumulative amount (section 6).\<close>

definition campaign_full :: "store \<Rightarrow> nat \<Rightarrow> campaign_data" where
  "campaign_full s cid =
     (campaign_info (registry s ! cid))
       \<lparr> cd_donators := Some (c_donators (registry s ! cid)),
         cd_donations :=
           Some (map (\<lambda>a. DonationWei (cumulativeAmount (ledger s (cid, a))))
                   (c_donators (registry s ! cid))) \<rparr>"

text \<open>What a call through \<open>ethers\<close> can throw: a revert of the contract, an argument
  that does not fit the unsigned type of the ABI, or any other exception \<open>'x\<close> of the
  libraries.\<close>

datatype 'x call_error = Reverted error | ValueOutOfBounds | Other 'x

text \<open>Modelled from the spec: a mined transaction is the value returned together with
  the store it leaves; a reverted one is an error (section 7).\<close>

definition mined :: "(error + retval) \<times> store \<Rightarrow> 'x call_error + retval \<times> store" where
  "mined r = (case fst r of Inl e \<Rightarrow> Inl (Reverted e) | Inr v \<Rightarrow> Inr (v, snd r))"

text \<open>Modelled from the spec: the contract handle of a client whose signer is the ordinary
  account \<open>signer\<close>, on the store \<open>s\<close> at block time \<open>now\<close>.\<close>

definition deployed ::
  "nat \<Rightarrow> address \<Rightarrow> store \<Rightarrow> ('x call_error, retval \<times> store) contract" where
  "deployed now signer s =
     \<lparr> contract_createCampaign = (\<lambda>ownr ttl descr tgt dl img.
          if tgt < 0 \<or> dl < 0 then Inl ValueOutOfBounds
          else mined (exec now (CreateCampaign ownr ttl descr (nat tgt) (nat dl) img) s)),
       contract_donateToCampaign = (\<lambda>cid v.
          if v < 0 then Inl ValueOutOfBounds
          else mined (exec now (DonateToCampaign cid signer (nat v)) s)),
       contract_getCampaigns = (\<lambda>offset limit.
          Inr (map campaign_info (cf_getCampaigns offset limit s))),
       contract_getCampaign = (\<lambda>cid.
          case cf_getCampaign cid s of
            Inl e \<Rightarrow> Inl (Reverted e)
          | Inr c \<Rightarrow> Inr (campaign_full s cid)),
       contract_finalizeCampaign = (\<lambda>cid. mined (exec now (FinalizeCampaign cid) s)),
       contract_withdrawFunds = (\<lambda>cid. mined (exec now (WithdrawFunds cid signer []) s)),
       contract_claimRefund = (\<lambda>cid. mined (exec now (ClaimRefund cid signer []) s)) \<rparr>"

section \<open>Invariants of the contract\<close>

text \<open>A decided campaign carries the decision that its amounts justify.\<close>

definition decided_ok :: "escrow_campaign \<Rightarrow> bool" where
  "decided_ok c =
     (case c_state c of
        Active \<Rightarrow> True
      | Successful \<Rightarrow> c_target c \<le> c_amountCollected c
      | Failed \<Rightarrow> c_amountCollected c < c_target c
      | Withdrawn \<Rightarrow> c_target c \<le> c_amountCollected c)"

definition decisions_ok :: "store \<Rightarrow> bool" where
  "decisions_ok s = (\<forall>cid < length (registry s). decided_ok (registry s ! cid))"

text \<open>The trace holds one payout for a campaign that is \<open>Withdrawn\<close>, to its owner and of
  its \<open>amountCollected\<close>, and none for any other campaign.\<close>

definition payout_inv :: "store \<Rightarrow> bool" where
  "payout_inv s =
     (\<forall>cid. payouts cid (transfers s) =
        (if cid < length (registry s) \<and> c_state (registry s ! cid) = Withdrawn
         then [(c_owner (registry s ! cid), c_amountCollected (registry s ! cid))]
         else []))"

text \<open>The ledger, the donor lists and the refunds of the trace agree: whoever has a
  positive total is a donor of an existing campaign; a refunded pair belongs to a
  \<open>Failed\<close> campaign and has a positive total; donor lists have no duplicates and
  \<open>amountCollected\<close> is the sum of the donors' totals; the trace holds exactly one refund,
  of the recorded total, for each refunded pair and none for the others; and the refunds
  of a campaign add up to the totals of its refunded donors.\<close>

definition ledger_inv :: "store \<Rightarrow> bool" where
  "ledger_inv s =
     ((\<forall>cid a. 0 < cumulativeAmount (ledger s (cid, a)) \<longrightarrow>
         cid < length (registry s) \<and> a \<in> set (c_donators (registry s ! cid))) \<and>
      (\<forall>cid a. refundedFlag (ledger s (cid, a)) \<longrightarrow>
         cid < length (registry s) \<and> c_state (registry s ! cid) = Failed \<and>
         0 < cumulativeAmount (ledger s (cid, a))) \<and>
      (\<forall>cid < length (registry s).
         distinct (c_donators (registry s ! cid)) \<and>
         c_amountCollected (registry s ! cid) =
           (\<Sum>a\<leftarrow>c_donators (registry s ! cid). cumulativeAmount (ledger s (cid, a)))) \<and>
      (\<forall>cid a. refunds_to cid a (transfers s) =
         (if refundedFlag (ledger s (cid, a)) then [cumulativeAmount (ledger s (cid, a))]
          else [])) \<and>
      (\<forall>cid. total_refunded cid s =
         (if cid < length (registry s)
          then (\<Sum>a\<leftarrow>c_donators (registry s ! cid).
                  if refundedFlag (ledger s (cid, a)) then cumulativeAmount (ledger s (cid, a))
                  else 0)
          else 0)))"

section \<open>Example values\<close>

text \<open>The initial React state of \<open>App\<close> (the arguments of its \<open>useState\<close> calls).\<close>

definition initial_app_state :: app_state where
  "initial_app_state =
     \<lparr> campaigns = [], networkError = [], loadingCampaigns = False, loading = True \<rparr>"

text \<open>Scenario 6 of the specification: a registry of five campaigns.\<close>

definition five_campaigns :: store where
  "five_campaigns =
     run_calls
       [(0, CreateCampaign ''0xA1'' ''Well'' ''A village well'' 10 100 ''a.png''),
        (0, CreateCampaign ''0xA1'' ''School'' ''A school roof'' 20 100 ''b.png''),
        (0, CreateCampaign ''0xB2'' ''Bridge'' ''A foot bridge'' 30 100 ''c.png''),
        (0, CreateCampaign ''0xB2'' ''Library'' ''Books'' 40 100 ''d.png''),
        (0, CreateCampaign ''0xC3'' ''Clinic'' ''A clinic'' 50 100 ''e.png'')]
       init_store"

text \<open>A registry of twenty-five campaigns, more than one page of the list view.\<close>

definition twenty_five_campaigns :: store where
  "twenty_five_campaigns =
     run_calls (replicate 25 (0, CreateCampaign ''0xA1'' ''Well'' ''A village well'' 10 100 ''a.png''))
       init_store"

text \<open>A stand-in for \<open>ethers.parseEther\<close> that knows one amount, 1.5 ether.\<close>

definition parseEther_example :: "string \<Rightarrow> unit call_error + int" where
  "parseEther_example a =
     (if a = ''1.5'' then Inr 1500000000000000000 else Inl (Other ()))"

text \<open>Scenario 2 of the specification: target 10, two donors give 4 and 6 before the
  deadline 100.\<close>

definition scenario2_calls :: "(nat \<times> call) list" where
  "scenario2_calls =
     [(0, CreateCampaign ''0xA1'' ''Well'' ''A village well'' 10 100 ''a.png''),
      (10, DonateToCampaign 0 ''0xAA'' 4),
      (20, DonateToCampaign 0 ''0xBB'' 6)]"

definition scenario2_successful :: store where
  "scenario2_successful = run_calls (scenario2_calls @ [(100, FinalizeCampaign 0)]) init_store"

text \<open>Scenario 3 of the specification, with a second donor: target 10, two donors give 3
  and 2 before the deadline 50. In \<open>scenario3_refunds\<close> the first donor claims and tries
  to claim again while being paid, the second donor claims, and the first tries once
  more.\<close>

definition scenario3_calls :: "(nat \<times> call) list" where
  "scenario3_calls =
     [(0, CreateCampaign ''0xA1'' ''Well'' ''A village well'' 10 50 ''a.png''),
      (10, DonateToCampaign 0 ''0xAA'' 3),
      (20, DonateToCampaign 0 ''0xBB'' 2)]"

definition scenario3_failed :: store where
  "scenario3_failed = run_calls (scenario3_calls @ [(60, FinalizeCampaign 0)]) init_store"

definition scenario3_refunds :: "(nat \<times> call) list" where
  "scenario3_refunds =
     [(70, ClaimRefund 0 ''0xAA'' [ClaimRefund 0 ''0xAA'' []]),
      (80, ClaimRefund 0 ''0xBB'' []),
      (90, ClaimRefund 0 ''0xAA'' [])]"

text \<open>Contract handles of a client on the example registries, at block time 5.\<close>

definition five_handle :: "unit call_error + (unit call_error, retval \<times> store) contract" where
  "five_handle = Inr (deployed 5 ''0xD0'' five_campaigns)"

definition twenty_five_handle ::
  "unit call_error + (unit call_error, retval \<times> store) contract" where
  "twenty_five_handle = Inr (deployed 5 ''0xD0'' twenty_five_campaigns)"

section \<open>Properties of the client\<close>

subsection \<open>The deadline conversion\<close>















lemma formatCampaign_state: "fc_state (formatCampaign fe cd i dn ds) \<noteq> None"
  by (simp add: formatCampaign_def Let_def)

lemma formatCampaign_status:
  "fc_status (formatCampaign fe cd i dn ds) =
     (case cd_state cd of
        None \<Rightarrow> ''active''
      | Some st \<Rightarrow> if st = 1 then ''successful'' else if st = 2 then ''failed''
                   else if st = 3 then ''withdrawn'' else ''active'')"
  by (simp add: formatCampaign_def Let_def split: option.splits)

lemma transformCampaign_formatCampaign_status:
  "ac_status (transformCampaign pf t (formatCampaign fe cd i dn ds)) =
     fc_status (formatCampaign fe cd i dn ds)"
  by (simp add: transformCampaign_def formatCampaign_def Let_def)

lemma CampaignState_UNIV: "(UNIV :: CampaignState set) = {Active, Successful, Failed, Withdrawn}"
proof -
  have "st \<in> {Active, Successful, Failed, Withdrawn}" for st
    by (cases st) simp_all
  then show ?thesis by blast
qed

lemma enumerate_map_snd:
  "enumerate n (map g xs) = map (\<lambda>(i, x). (i, g x)) (enumerate n xs)"
  by (induction xs arbitrary: n) auto

lemma campaign_info_no_lists:
  "cd_donators (campaign_info c) = None \<and> cd_donations (campaign_info c) = None"
  by (simp add: campaign_info_def)

lemma getCampaigns_deployed:
  "getCampaigns (Inr (deployed now signer s)) fe (Some offset) (Some limit) =
     Inr (map (\<lambda>(i, c). formatCampaign fe (campaign_info c) i None None)
            (enumerate 0 (take limit (drop offset (registry s)))))"
  by (simp add: getCampaigns_def deployed_def cf_getCampaigns_def enumerate_map_snd
        campaign_info_no_lists split_def comp_def)

lemma getCampaigns_defaults:
  "getCampaigns gc fe None None = getCampaigns gc fe (Some 0) (Some 20)"
  by (simp add: getCampaigns_def)

lemma finally_block_campaigns: "campaigns (finally_block u st) = campaigns st"
  by (simp add: finally_block_def)

lemma loadCampaigns_campaigns:
  "campaigns (loadCampaigns u1 u2 u3 u4 net (Inr (deployed now signer s)) fe pf ferr t st) =
     (if u1 then campaigns st
      else if \<not> net then []
      else if u2 \<or> u3 then campaigns st
      else map (\<lambda>(i, c). transformCampaign pf t
                           (formatCampaign fe (campaign_info c) i None None))
             (enumerate 0 (take 20 (registry s))))"
  by (simp add: loadCampaigns_def Let_def finally_block_campaigns getCampaigns_defaults
        getCampaigns_deployed split_def split: sum.splits)

text \<open>
  The fallback of the list view, taken only for an entry whose \<open>state\<close> is \<open>undefined\<close>,
  presents every entry whose deadline lies before \<open>now\<close> as \<open>failed\<close>, whatever was
  collected. No entry that \<open>formatCampaign\<close> produced reaches it
  (\<open>formatCampaign_state\<close>).
\<close>

lemma transformCampaign_fallback:
  "fc_state bc = None \<Longrightarrow> fc_deadline bc < now \<Longrightarrow>
   ac_status (transformCampaign pf now bc) = ''failed''"
  by (simp add: transformCampaign_def)

text \<open>
  What holds of the client's \<open>getCampaigns\<close> on the contract of the specification: the
  result has \<open>min limit (count - offset)\<close> entries, it is empty from \<open>offset = count\<close> on,
  the entries are the campaigns of the slice in registry order, none has a contributor
  list, and the ids are the positions in the result, not in the registry.
\<close>

lemma map_snd_enumerate: "map (\<lambda>p. f (snd p)) (enumerate n ys) = map f ys"
  by (induction ys arbitrary: n) auto

lemma map_fst_enumerate: "map (\<lambda>p. g (fst p)) (enumerate n ys) = map g [n..<n + length ys]"
  by (induction ys arbitrary: n) (auto simp: upt_rec)

lemma getCampaigns_slice:
  assumes "getCampaigns (Inr (deployed now signer s)) fe (Some offset) (Some limit) = Inr xs"
  shows "length xs = min limit (length (registry s) - offset)"
    and "length (registry s) \<le> offset \<Longrightarrow> xs = []"
    and "map fc_title xs = map c_title (take limit (drop offset (registry s)))"
    and "\<forall>x \<in> set xs. fc_donators x = [] \<and> fc_donations x = []"
    and "map fc_id xs = map toString [0..<length xs]"
proof -
  have xs: "xs = map (\<lambda>(i, c). formatCampaign fe (campaign_info c) i None None)
                   (enumerate 0 (take limit (drop offset (registry s))))"
    using assms by (simp add: getCampaigns_deployed)
  show "length xs = min limit (length (registry s) - offset)"
    by (simp add: xs min.commute)
  show "length (registry s) \<le> offset \<Longrightarrow> xs = []"
    by (simp add: xs)
  show "map fc_title xs = map c_title (take limit (drop offset (registry s)))"
    by (simp add: xs formatCampaign_def campaign_info_def split_def comp_def Let_def
          map_snd_enumerate)
  show "\<forall>x \<in> set xs. fc_donators x = [] \<and> fc_donations x = []"
    by (auto simp: xs formatCampaign_def Let_def)
  show "map fc_id xs = map toString [0..<length xs]"
    by (simp add: xs formatCampaign_def split_def comp_def Let_def
          map_fst_enumerate [where n = 0, simplified] min.commute)
qed

text \<open>
  C6. The campaign state has exactly the four values \<open>Active\<close> (0), \<open>Successful\<close> (1),
  \<open>Failed\<close> (2) and \<open>Withdrawn\<close> (3); a campaign is \<open>Active\<close> when it is created; and
  both \<open>formatCampaign\<close> and the list view of \<open>loadCampaigns\<close> turn the number of each
  state into the status string \<open>active\<close>, \<open>successful\<close>, \<open>failed\<close>, \<open>withdrawn\<close>.
\<close>

theorem state_enum_status:
  "(UNIV :: CampaignState set) = {Active, Successful, Failed, Withdrawn} \<and>
   map state_code [Active, Successful, Failed, Withdrawn] = [0, 1, 2, 3] \<and>
   (fst (cf_createCampaign now ownr ttl descr tgt dl img s) = Inr cid \<longrightarrow>
      c_state (registry (snd (cf_createCampaign now ownr ttl descr tgt dl img s)) ! cid) = Active) \<and>
   map (\<lambda>st. fc_status (formatCampaign fe (cd\<lparr>cd_state := Some (state_code st)\<rparr>) i dn ds))
     [Active, Successful, Failed, Withdrawn]
     = [''active'', ''successful'', ''failed'', ''withdrawn''] \<and>
   map (\<lambda>st. ac_status (transformCampaign pf t
                (formatCampaign fe (cd\<lparr>cd_state := Some (state_code st)\<rparr>) i dn ds)))
     [Active, Successful, Failed, Withdrawn]
     = [''active'', ''successful'', ''failed'', ''withdrawn'']"
proof -
  have created: "fst (cf_createCampaign now ownr ttl descr tgt dl img s) = Inr cid \<longrightarrow>
      c_state (registry (snd (cf_createCampaign now ownr ttl descr tgt dl img s)) ! cid) = Active"
    by (auto simp: cf_createCampaign_def add_campaign_def Let_def split: if_splits)
  show ?thesis
    using created
    by (simp add: CampaignState_UNIV formatCampaign_status
          transformCampaign_formatCampaign_status)
qed

theorem state_enum_status_witness:
  "fst (cf_createCampaign 0 ''0xD4'' ''Park'' ''A park'' 5 100 ''p.png'' five_campaigns) = Inr 5 \<and>
   c_state (registry (snd (cf_createCampaign 0 ''0xD4'' ''Park'' ''A park'' 5 100 ''p.png''
              five_campaigns)) ! 5) = Active"
proof -
  have h: "fst (cf_createCampaign 0 ''0xD4'' ''Park'' ''A park'' 5 100 ''p.png'' five_campaigns)
             = Inr 5"
    by (simp add: cf_createCampaign_def add_campaign_def five_campaigns_def init_store_def Let_def)
  show ?thesis
    using h state_enum_status [of 0 "''0xD4''" "''Park''" "''A park''" 5 100 "''p.png''"
                                 five_campaigns 5]
    by simp
qed

text \<open>
  C8. No per-milestone data reaches a consumer: in every campaign object the client
  produces (\<open>formatCampaign\<close>, hence \<open>getCampaigns\<close> and \<open>getCampaign\<close>, and the list
  view of \<open>loadCampaigns\<close>) the fields \<open>milestones\<close>, \<open>contributions\<close> and \<open>rewardTiers\<close>
  are empty lists, whatever the campaign data are.
\<close>

theorem no_milestone_data:
  "fc_milestones (formatCampaign fe cd i dn ds) = [] \<and>
   fc_contributions (formatCampaign fe cd i dn ds) = [] \<and>
   fc_rewardTiers (formatCampaign fe cd i dn ds) = [] \<and>
   ac_milestones (transformCampaign pf t bc) = [] \<and>
   ac_contributions (transformCampaign pf t bc) = [] \<and>
   ac_rewardTiers (transformCampaign pf t bc) = [] \<and>
   (getCampaigns gc fe offset limit = Inr xs \<longrightarrow>
      (\<forall>x \<in> set xs. fc_milestones x = [] \<and> fc_contributions x = [] \<and> fc_rewardTiers x = [])) \<and>
   (getCampaign gc fe cid = Inr x \<longrightarrow>
      fc_milestones x = [] \<and> fc_contributions x = [] \<and> fc_rewardTiers x = [])"
proof -
  have one: "fc_milestones (formatCampaign fe cd' i' dn' ds') = [] \<and>
             fc_contributions (formatCampaign fe cd' i' dn' ds') = [] \<and>
             fc_rewardTiers (formatCampaign fe cd' i' dn' ds') = []" for cd' i' dn' ds'
    by (simp add: formatCampaign_def Let_def)
  have app: "ac_milestones (transformCampaign pf t bc) = [] \<and>
             ac_contributions (transformCampaign pf t bc) = [] \<and>
             ac_rewardTiers (transformCampaign pf t bc) = []"
    by (simp add: transformCampaign_def Let_def)
  have many: "getCampaigns gc fe offset limit = Inr xs \<longrightarrow>
      (\<forall>x \<in> set xs. fc_milestones x = [] \<and> fc_contributions x = [] \<and> fc_rewardTiers x = [])"
    using one by (auto simp: getCampaigns_def Let_def split: sum.splits)
  have single: "getCampaign gc fe cid = Inr x \<longrightarrow>
      fc_milestones x = [] \<and> fc_contributions x = [] \<and> fc_rewardTiers x = []"
    using one by (auto simp: getCampaign_def split: sum.splits)
  show ?thesis using one app many single by blast
qed

theorem no_milestone_data_witness:
  "(case getCampaigns five_handle toString (Some 3) (Some 5) of
      Inl e \<Rightarrow> False
    | Inr xs \<Rightarrow> length xs = 2 \<and>
        list_all (\<lambda>x. fc_milestones x = [] \<and> fc_contributions x = [] \<and> fc_rewardTiers x = []) xs) \<and>
   (case getCampaign five_handle toString 4 of
      Inl e \<Rightarrow> False
    | Inr x \<Rightarrow> fc_title x = ''Clinic'' \<and>
        fc_milestones x = [] \<and> fc_contributions x = [] \<and> fc_rewardTiers x = [])"
proof -
  obtain xs where xs: "getCampaigns five_handle toString (Some 3) (Some 5) = Inr xs" "length xs = 2"
    by (simp add: five_handle_def getCampaigns_deployed five_campaigns_def init_store_def
          cf_createCampaign_def add_campaign_def Let_def enumerate_eq_zip)
  obtain x where x: "getCampaign five_handle toString 4 = Inr x" "fc_title x = ''Clinic''"
    by (simp add: five_handle_def getCampaign_def deployed_def cf_getCampaign_def
          campaign_full_def campaign_info_def formatCampaign_def five_campaigns_def
          init_store_def cf_createCampaign_def add_campaign_def Let_def)
  show ?thesis
    using xs x
      no_milestone_data [of toString "campaign_info (registry five_campaigns ! 0)" 0 None None
        "\<lambda>a. 0" 5000 x five_handle "Some 3" "Some 5" xs 4 x]
    by (simp add: list_all_iff)
qed

text \<open>
  C10. \<open>getCampaigns\<close> without arguments asks for offset 0 and limit 20, and
  \<open>loadCampaigns\<close> calls it without arguments: the list of campaigns it stores never has
  more than 20 entries, and after a successful load it is the first 20 campaigns of the
  registry, however many the registry has.
\<close>

theorem list_view_first_20:
  "getCampaigns gc fe None None = getCampaigns gc fe (Some 0) (Some 20) \<and>
   getCampaigns (Inr contract) fe None None =
     (case contract_getCampaigns contract 0 20 of
        Inl e \<Rightarrow> Inl e
      | Inr cs \<Rightarrow>
          Inr (map (\<lambda>(index, campaign).
                      formatCampaign fe campaign index (cd_donators campaign) (cd_donations campaign))
                (enumerate 0 cs))) \<and>
   campaigns initial_app_state = [] \<and>
   ((\<forall>cs. contract_getCampaigns contract 0 20 = Inr cs \<longrightarrow> length cs \<le> 20) \<and>
    length (campaigns st) \<le> 20 \<longrightarrow>
      length (campaigns (loadCampaigns u1 u2 u3 u4 net (Inr contract) fe pf ferr t st)) \<le> 20) \<and>
   (\<forall>cs. contract_getCampaigns (deployed now signer s) 0 20 = Inr cs \<longrightarrow> length cs \<le> 20) \<and>
   (\<not> u1 \<and> \<not> u2 \<and> \<not> u3 \<and> net \<longrightarrow>
      campaigns (loadCampaigns u1 u2 u3 u4 net (Inr (deployed now signer s)) fe pf ferr t st) =
        map (\<lambda>(i, c). transformCampaign pf t (formatCampaign fe (campaign_info c) i None None))
          (enumerate 0 (take 20 (registry s))))"
proof -
  have request: "getCampaigns (Inr contract) fe None None =
     (case contract_getCampaigns contract 0 20 of
        Inl e \<Rightarrow> Inl e
      | Inr cs \<Rightarrow>
          Inr (map (\<lambda>(index, campaign).
                      formatCampaign fe campaign index (cd_donators campaign) (cd_donations campaign))
                (enumerate 0 cs)))"
    by (simp add: getCampaigns_def)
  have bound: "(\<forall>cs. contract_getCampaigns contract 0 20 = Inr cs \<longrightarrow> length cs \<le> 20) \<and>
    length (campaigns st) \<le> 20 \<longrightarrow>
      length (campaigns (loadCampaigns u1 u2 u3 u4 net (Inr contract) fe pf ferr t st)) \<le> 20"
    by (auto simp: loadCampaigns_def Let_def finally_block_campaigns request split: sum.splits)
  have page: "\<forall>cs. contract_getCampaigns (deployed now signer s) 0 20 = Inr cs \<longrightarrow> length cs \<le> 20"
    by (auto simp: deployed_def cf_getCampaigns_def)
  show ?thesis
    using request bound page
    by (simp add: getCampaigns_defaults initial_app_state_def loadCampaigns_campaigns)
qed

lemma twenty_five_length: "length (registry twenty_five_campaigns) = 25"
  by code_simp

theorem list_view_first_20_witness:
  "map_sum (\<lambda>e. ()) length
     (contract_getCampaigns (deployed 5 ''0xD0'' twenty_five_campaigns
        :: (unit call_error, retval \<times> store) contract) 0 20) = Inr 20 \<and>
   length (campaigns initial_app_state) \<le> 20 \<and>
   length (registry twenty_five_campaigns) = 25 \<and>
   length (campaigns (loadCampaigns False False False False True twenty_five_handle toString
             (\<lambda>a. 0) (\<lambda>e. ''failed to load'') 5000 initial_app_state)) = 20"
proof -
  let ?L = "campaigns (loadCampaigns False False False False True
              (Inr (deployed 5 ''0xD0'' twenty_five_campaigns)
                 :: unit call_error + (unit call_error, retval \<times> store) contract)
              toString (\<lambda>a. 0) (\<lambda>e. ''failed to load'') 5000 initial_app_state)"
  have h: "length (campaigns initial_app_state) \<le> 20"
    by (simp add: initial_app_state_def)
  note t = list_view_first_20 [of twenty_five_handle toString
        "deployed 5 ''0xD0'' twenty_five_campaigns" initial_app_state False False False
        False True "\<lambda>a. 0" "\<lambda>e :: unit call_error. ''failed to load''" 5000
        5 "''0xD0''" twenty_five_campaigns]
  have page: "\<forall>cs. contract_getCampaigns (deployed 5 ''0xD0'' twenty_five_campaigns
            :: (unit call_error, retval \<times> store) contract) 0 20 = Inr cs \<longrightarrow> length cs \<le> 20"
    by (auto simp: deployed_def cf_getCampaigns_def)
  have le: "length ?L \<le> 20"
    by (rule t [THEN conjunct2, THEN conjunct2, THEN conjunct2, THEN conjunct1, THEN mp,
                OF conjI [OF page h]])
  have "?L = map (\<lambda>(i, c). transformCampaign (\<lambda>a. 0) 5000
                    (formatCampaign toString (campaign_info c) i None None))
               (enumerate 0 (take 20 (registry twenty_five_campaigns)))"
    by (rule t [THEN conjunct2, THEN conjunct2, THEN conjunct2, THEN conjunct2, THEN conjunct2,
                THEN mp]) simp
  then have eq: "length ?L = 20"
    using twenty_five_length by simp
  have got: "map_sum (\<lambda>e. ()) length
     (contract_getCampaigns (deployed 5 ''0xD0'' twenty_five_campaigns
        :: (unit call_error, retval \<times> store) contract) 0 20) = Inr 20"
    using twenty_five_length by (simp add: deployed_def cf_getCampaigns_def)
  show ?thesis
    using got h twenty_five_length eq unfolding twenty_five_handle_def by (intro conjI)
qed

text \<open>
  C5. \<open>donateToCampaign\<close> attaches as the value of the call exactly the Wei amount that
  \<open>parseEther\<close> returns for the requested amount, and sends nothing if \<open>parseEther\<close>
  throws. For a positive amount the contract receives that same value and books exactly
  it, on the donor's cumulative total and on \<open>amountCollected\<close>: no fee, no rounding.
\<close>

theorem donation_value_exact:
  "(parseEther amount = Inr amountWei \<longrightarrow>
      donateToCampaign (Inr contract) parseEther campaignId amount =
        contract_donateToCampaign contract campaignId amountWei) \<and>
   (parseEther amount = Inl e \<longrightarrow>
      donateToCampaign (Inr contract) parseEther campaignId amount = Inl e) \<and>
   (parseEther amount = Inr amountWei \<and> 0 < amountWei \<longrightarrow>
      int (nat amountWei) = amountWei \<and>
      donateToCampaign (Inr (deployed now signer s)) parseEther campaignId amount =
        mined (exec now (DonateToCampaign campaignId signer (nat amountWei)) s)) \<and>
   (parseEther amount = Inr amountWei \<and> 0 < amountWei \<and>
    donateToCampaign (Inr (deployed now signer s)) parseEther campaignId amount = Inr (r, s') \<longrightarrow>
      r = NewTotal (cf_getContribution campaignId signer s + nat amountWei) \<and>
      cf_getContribution campaignId signer s' =
        cf_getContribution campaignId signer s + nat amountWei \<and>
      c_amountCollected (registry s' ! campaignId) =
        c_amountCollected (registry s ! campaignId) + nat amountWei)"
proof -
  have a: "parseEther amount = Inr amountWei \<longrightarrow>
      donateToCampaign (Inr contract) parseEther campaignId amount =
        contract_donateToCampaign contract campaignId amountWei"
    by (simp add: donateToCampaign_def)
  have b: "parseEther amount = Inl e \<longrightarrow>
      donateToCampaign (Inr contract) parseEther campaignId amount = Inl e"
    by (simp add: donateToCampaign_def)
  have c: "parseEther amount = Inr amountWei \<and> 0 < amountWei \<longrightarrow>
      int (nat amountWei) = amountWei \<and>
      donateToCampaign (Inr (deployed now signer s)) parseEther campaignId amount =
        mined (exec now (DonateToCampaign campaignId signer (nat amountWei)) s)"
    by (simp add: donateToCampaign_def deployed_def)
  have d: "mined (exec now (DonateToCampaign campaignId signer v) s) = Inr (r, s') \<longrightarrow>
      r = NewTotal (cf_getContribution campaignId signer s + v) \<and>
      cf_getContribution campaignId signer s' = cf_getContribution campaignId signer s + v \<and>
      c_amountCollected (registry s' ! campaignId) =
        c_amountCollected (registry s ! campaignId) + v" for v
    by (auto simp: mined_def cf_recordContribution_def book_contribution_def cf_getContribution_def Let_def
          split: if_splits sum.splits)
  show ?thesis using a b c d [of "nat amountWei"] by auto
qed

theorem donation_value_exact_witness:
  "parseEther_example ''1.5'' = Inr 1500000000000000000 \<and>
   (0 :: int) < 1500000000000000000 \<and>
   parseEther_example ''one'' = Inl (Other ()) \<and>
   donateToCampaign five_handle parseEther_example 2 ''one'' = Inl (Other ()) \<and>
   map_sum (\<lambda>e. ())
     (\<lambda>(r, s'). (r, cf_getContribution 2 ''0xD0'' s', c_amountCollected (registry s' ! 2)))
     (donateToCampaign five_handle parseEther_example 2 ''1.5'')
     = Inr (NewTotal 1500000000000000000, 1500000000000000000, 1500000000000000000)"
proof -
  let ?X = "donateToCampaign five_handle parseEther_example 2 ''1.5''"
  have p: "parseEther_example ''1.5'' = Inr 1500000000000000000"
    by (simp add: parseEther_example_def)
  have before: "cf_getContribution 2 ''0xD0'' five_campaigns = 0"
               "c_amountCollected (registry five_campaigns ! 2) = 0"
    by (simp_all add: cf_getContribution_def five_campaigns_def init_store_def
          cf_createCampaign_def add_campaign_def Let_def)
  obtain r s' where rs: "?X = Inr (r, s')"
    by (simp add: five_handle_def donateToCampaign_def p deployed_def mined_def
          cf_recordContribution_def book_contribution_def five_campaigns_def init_store_def cf_createCampaign_def add_campaign_def
          Let_def)
  have q: "parseEther_example ''one'' = Inl (Other ())"
    by (simp add: parseEther_example_def)
  have bad: "donateToCampaign five_handle parseEther_example 2 ''one'' = Inl (Other ())"
    using q
      donation_value_exact [of parseEther_example "''one''" 1500000000000000000
        "deployed 5 ''0xD0'' five_campaigns" 2 "Other ()" 5 "''0xD0''" five_campaigns r s']
    by (simp add: five_handle_def)
  show ?thesis
    using p q bad rs before
      donation_value_exact [of parseEther_example "''1.5''" 1500000000000000000
        "deployed 5 ''0xD0'' five_campaigns" 2 "Other ()" 5 "''0xD0''" five_campaigns r s']
    by (simp add: five_handle_def)
qed

text \<open>
  C7. Scenario 6 of the specification, five campaigns and \<open>getCampaigns(4, 2)\<close>: the
  client returns the one campaign of the slice, the fifth (\<open>Clinic\<close>), but labels it with
  its index in the returned array, \<open>0\<close>, where the registry id is 4; \<open>getCampaign(4)\<close>
  labels the same campaign \<open>4\<close>. The pages \<open>getCampaigns(0, 2)\<close> and
  \<open>getCampaigns(2, 2)\<close> hold different campaigns under the same ids \<open>0\<close> and \<open>1\<close>.
\<close>

theorem getCampaigns_offset_4_ids:
  "map_sum (\<lambda>e. ()) (map (\<lambda>x. (fc_id x, fc_title x)))
     (getCampaigns (Inr (deployed 5 ''0xA1'' five_campaigns)) toString (Some 4) (Some 2))
     = Inr [(''0'', ''Clinic'')] \<and>
   map_sum (\<lambda>e. ()) (\<lambda>x. (fc_id x, fc_title x))
     (getCampaign (Inr (deployed 5 ''0xA1'' five_campaigns)) toString 4)
     = Inr (''4'', ''Clinic'') \<and>
   map_sum (\<lambda>e. ()) (map (\<lambda>x. (fc_id x, fc_title x)))
     (getCampaigns (Inr (deployed 5 ''0xA1'' five_campaigns)) toString (Some 0) (Some 2))
     = Inr [(''0'', ''Well''), (''1'', ''School'')] \<and>
   map_sum (\<lambda>e. ()) (map (\<lambda>x. (fc_id x, fc_title x)))
     (getCampaigns (Inr (deployed 5 ''0xA1'' five_campaigns)) toString (Some 2) (Some 2))
     = Inr [(''0'', ''Bridge''), (''1'', ''Library'')]"
  by (simp add: getCampaigns_def getCampaign_def deployed_def cf_getCampaigns_def
        cf_getCampaign_def campaign_full_def campaign_info_def five_campaigns_def
        init_store_def cf_createCampaign_def add_campaign_def formatCampaign_def Let_def
        toString.simps digit_char_def enumerate_eq_zip)

section \<open>Properties of the contract\<close>

lemma exec_preserves:
  fixes I :: "store \<Rightarrow> bool"
  assumes create: "\<And>ownr ttl descr tgt dl img s.
              I s \<Longrightarrow> 0 < tgt \<Longrightarrow> I (add_campaign ownr ttl descr tgt dl img s)"
    and donate: "\<And>cid a v s. I s \<Longrightarrow> cid < length (registry s) \<Longrightarrow>
              c_state (registry s ! cid) = Active \<Longrightarrow> 0 < v \<Longrightarrow>
              I (book_contribution cid a v s)"
    and finalize: "\<And>cid s. I s \<Longrightarrow> cid < length (registry s) \<Longrightarrow>
              c_state (registry s ! cid) = Active \<Longrightarrow> I (set_decision cid s)"
    and withdraw: "\<And>cid s. I s \<Longrightarrow> cid < length (registry s) \<Longrightarrow>
              c_state (registry s ! cid) = Successful \<Longrightarrow>
              I (send_transfer
                   (Payout cid (c_owner (registry s ! cid)) (c_amountCollected (registry s ! cid)))
                   (mark_withdrawn cid s))"
    and refund: "\<And>cid caller s. I s \<Longrightarrow> cid < length (registry s) \<Longrightarrow>
              c_state (registry s ! cid) = Failed \<Longrightarrow>
              0 < cumulativeAmount (ledger s (cid, caller)) \<Longrightarrow>
              \<not> refundedFlag (ledger s (cid, caller)) \<Longrightarrow>
              I (send_transfer (RefundPaid cid caller (cumulativeAmount (ledger s (cid, caller))))
                   (mark_refunded cid caller s))"
  shows "I s \<Longrightarrow> I (snd (exec now c s))"
    and "I s' \<Longrightarrow> I (run_callback now' cs s')"
proof (induction now c s and now' cs s' rule: exec_run_callback.induct)
  case (1 now ownr ttl descr tgt dl img s)
  then show ?case using create by (simp add: cf_createCampaign_def)
next
  case (2 now cid contributor amount s)
  then show ?case using donate by (simp add: cf_recordContribution_def)
next
  case (3 now cid s)
  then show ?case using finalize by (simp add: cf_finalize_def)
next
  case (4 now cid caller cb s)
  show ?case
  proof (cases "withdraw_check cid caller s")
    case (Inl e)
    then show ?thesis using "4.prems" by simp
  next
    case (Inr amount)
    then have ok: "cid < length (registry s)" "c_state (registry s ! cid) = Successful"
      "amount = c_amountCollected (registry s ! cid)"
      by (auto simp: withdraw_check_def split: if_splits)
    have pre: "I (send_transfer (Payout cid (c_owner (registry s ! cid)) amount)
                    (mark_withdrawn cid s))"
      using withdraw [OF "4.prems" ok(1) ok(2)] ok(3) by simp
    show ?thesis
      using Inr "4.IH" [OF Inr pre] by simp
  qed
next
  case (5 now cid caller cb s)
  show ?case
  proof (cases "refund_check cid caller s")
    case (Inl e)
    then show ?thesis using "5.prems" by simp
  next
    case (Inr amount)
    then have ok: "cid < length (registry s)" "c_state (registry s ! cid) = Failed"
      "0 < cumulativeAmount (ledger s (cid, caller))" "\<not> refundedFlag (ledger s (cid, caller))"
      "amount = cumulativeAmount (ledger s (cid, caller))"
      by (auto simp: refund_check_def split: if_splits)
    have pre: "I (send_transfer (RefundPaid cid caller amount) (mark_refunded cid caller s))"
      using refund [OF "5.prems" ok(1) ok(2) ok(3) ok(4)] ok(5) by simp
    show ?thesis
      using Inr "5.IH" [OF Inr pre] by simp
  qed
next
  case (6 now s)
  then show ?case by simp
next
  case (7 now c cs s)
  then show ?case by simp
qed

lemma run_calls_preserves:
  fixes I :: "store \<Rightarrow> bool"
  assumes step: "\<And>now c s. I s \<Longrightarrow> I (snd (exec now c s))"
  shows "I s \<Longrightarrow> I (run_calls tr s)"
proof (induction tr arbitrary: s)
  case Nil
  then show ?case by simp
next
  case (Cons x tr)
  then show ?case using step by (cases x) simp
qed

lemmas effect_defs =
  add_campaign_def book_contribution_def set_decision_def mark_withdrawn_def
  mark_refunded_def send_transfer_def

lemma withdrawn_stays_exec:
  "cid < length (registry s) \<and> c_state (registry s ! cid) = Withdrawn \<Longrightarrow>
   cid < length (registry (snd (exec now c s))) \<and>
   c_state (registry (snd (exec now c s)) ! cid) = Withdrawn"
  by (rule exec_preserves(1)
        [where I = "\<lambda>s. cid < length (registry s) \<and> c_state (registry s ! cid) = Withdrawn"])
     (auto simp: effect_defs Let_def nth_append nth_list_update)

lemma withdrawn_stays_callback:
  "cid < length (registry s) \<and> c_state (registry s ! cid) = Withdrawn \<Longrightarrow>
   cid < length (registry (run_callback now cs s)) \<and>
   c_state (registry (run_callback now cs s) ! cid) = Withdrawn"
  by (rule exec_preserves(2)
        [where I = "\<lambda>s. cid < length (registry s) \<and> c_state (registry s ! cid) = Withdrawn"])
     (auto simp: effect_defs Let_def nth_append nth_list_update)

lemma refunded_stays_callback:
  "cid < length (registry s) \<and> c_state (registry s ! cid) = Failed \<and>
     refundedFlag (ledger s (cid, a)) \<Longrightarrow>
   cid < length (registry (run_callback now cs s)) \<and>
   c_state (registry (run_callback now cs s) ! cid) = Failed \<and>
   refundedFlag (ledger (run_callback now cs s) (cid, a))"
  by (rule exec_preserves(2)
        [where I = "\<lambda>s. cid < length (registry s) \<and> c_state (registry s ! cid) = Failed \<and>
                         refundedFlag (ledger s (cid, a))"])
     (auto simp: effect_defs Let_def nth_append nth_list_update)

lemma frozen_exec:
  "cid < length (registry s) \<and> c_state (registry s ! cid) \<noteq> Active \<and>
     c_amountCollected (registry s ! cid) = v \<Longrightarrow>
   cid < length (registry (snd (exec now c s))) \<and>
   c_state (registry (snd (exec now c s)) ! cid) \<noteq> Active \<and>
   c_amountCollected (registry (snd (exec now c s)) ! cid) = v"
  by (rule exec_preserves(1)
        [where I = "\<lambda>s. cid < length (registry s) \<and> c_state (registry s ! cid) \<noteq> Active \<and>
                         c_amountCollected (registry s ! cid) = v"])
     (auto simp: effect_defs decide_def Let_def nth_append nth_list_update)

lemma frozen_run_calls:
  "cid < length (registry s) \<and> c_state (registry s ! cid) \<noteq> Active \<and>
     c_amountCollected (registry s ! cid) = v \<Longrightarrow>
   cid < length (registry (run_calls tr s)) \<and>
   c_state (registry (run_calls tr s) ! cid) \<noteq> Active \<and>
   c_amountCollected (registry (run_calls tr s) ! cid) = v"
  by (rule run_calls_preserves
        [where I = "\<lambda>s. cid < length (registry s) \<and> c_state (registry s ! cid) \<noteq> Active \<and>
                         c_amountCollected (registry s ! cid) = v"])
     (rule frozen_exec)

lemma decisions_ok_exec: "decisions_ok s \<Longrightarrow> decisions_ok (snd (exec now c s))"
  by (rule exec_preserves(1) [where I = decisions_ok])
     (auto simp: decisions_ok_def decided_ok_def effect_defs decide_def Let_def nth_append
        nth_list_update less_Suc_eq split: CampaignState.splits)

lemma decisions_ok_init: "decisions_ok init_store"
  by (simp add: decisions_ok_def init_store_def)

lemma decisions_ok_reachable: "decisions_ok (run_calls tr init_store)"
  by (rule run_calls_preserves [where I = decisions_ok, OF decisions_ok_exec decisions_ok_init])

lemma payouts_append: "payouts cid (ts @ us) = payouts cid ts @ payouts cid us"
  by (induction cid ts rule: payouts.induct) auto

lemma refunds_append: "refunds cid (ts @ us) = refunds cid ts @ refunds cid us"
  by (induction cid ts rule: refunds.induct) auto

lemma payout_inv_exec: "payout_inv s \<Longrightarrow> payout_inv (snd (exec now c s))"
  by (rule exec_preserves(1) [where I = payout_inv])
     (auto simp: payout_inv_def effect_defs decide_def Let_def nth_append nth_list_update
        payouts_append)

lemma payout_inv_init: "payout_inv init_store"
  by (simp add: payout_inv_def init_store_def)

lemma payout_inv_reachable: "payout_inv (run_calls tr init_store)"
  by (rule run_calls_preserves [where I = payout_inv, OF payout_inv_exec payout_inv_init])

lemma sum_list_same:
  fixes f g :: "'a \<Rightarrow> nat"
  shows "(\<And>x. x \<in> set xs \<Longrightarrow> g x = f x) \<Longrightarrow> sum_list (map g xs) = sum_list (map f xs)"
  by (induction xs) auto

lemma sum_list_change_one:
  fixes f g :: "'a \<Rightarrow> nat"
  shows "distinct xs \<Longrightarrow> a \<in> set xs \<Longrightarrow> (\<And>x. x \<in> set xs \<Longrightarrow> x \<noteq> a \<Longrightarrow> g x = f x) \<Longrightarrow>
         sum_list (map g xs) + f a = sum_list (map f xs) + g a"
proof (induction xs)
  case Nil
  then show ?case by simp
next
  case (Cons x xs)
  show ?case
  proof (cases "x = a")
    case True
    then have notin: "a \<notin> set xs" using Cons.prems(1) by simp
    have "sum_list (map g xs) = sum_list (map f xs)"
    proof (rule sum_list_same)
      fix y assume "y \<in> set xs"
      then show "g y = f y" using Cons.prems(3) [of y] notin by auto
    qed
    then show ?thesis using True by simp
  next
    case False
    have "sum_list (map g xs) + f a = sum_list (map f xs) + g a"
    proof (rule Cons.IH)
      show "distinct xs" using Cons.prems(1) by simp
      show "a \<in> set xs" using Cons.prems(2) False by simp
      show "\<And>y. y \<in> set xs \<Longrightarrow> y \<noteq> a \<Longrightarrow> g y = f y" using Cons.prems(3) by simp
    qed
    moreover have "g x = f x" using Cons.prems(3) [of x] False by simp
    ultimately show ?thesis by simp
  qed
qed

lemma refunds_to_append:
  "refunds_to cid a (ts @ us) = refunds_to cid a ts @ refunds_to cid a us"
  by (simp add: refunds_to_def refunds_append)

lemma ledger_inv_init: "ledger_inv init_store"
  by (simp add: ledger_inv_def init_store_def refunds_to_def total_refunded_def)

lemma ledger_inv_create:
  assumes inv: "ledger_inv s"
  shows "ledger_inv (add_campaign ownr ttl descr tgt dl img s)"
  using inv
  unfolding ledger_inv_def add_campaign_def
  by (auto simp: nth_append less_Suc_eq total_refunded_def cong: if_cong)

lemma ledger_inv_finalize:
  assumes inv: "ledger_inv s" and "cid < length (registry s)"
    and "c_state (registry s ! cid) = Active"
  shows "ledger_inv (set_decision cid s)"
proof -
  have noflag: "\<not> refundedFlag (ledger s (cid, a))" for a
    using assms unfolding ledger_inv_def by auto
  show ?thesis
    using assms noflag
    unfolding ledger_inv_def set_decision_def
    by (auto simp: nth_list_update total_refunded_def cong: if_cong)
qed

lemma ledger_inv_withdraw:
  assumes inv: "ledger_inv s" and "cid < length (registry s)"
    and "c_state (registry s ! cid) = Successful"
  shows "ledger_inv (send_transfer (Payout cid ownr amt) (mark_withdrawn cid s))"
proof -
  have noflag: "\<not> refundedFlag (ledger s (cid, a))" for a
    using assms unfolding ledger_inv_def by auto
  show ?thesis
    using assms noflag
    unfolding ledger_inv_def mark_withdrawn_def send_transfer_def
    by (auto simp: nth_list_update total_refunded_def refunds_to_def refunds_append cong: if_cong)
qed

lemma ledger_inv_refund:
  assumes inv: "ledger_inv s" and lt: "cid < length (registry s)"
    and failed: "c_state (registry s ! cid) = Failed"
    and pos: "0 < cumulativeAmount (ledger s (cid, caller))"
    and fresh: "\<not> refundedFlag (ledger s (cid, caller))"
  shows "ledger_inv (send_transfer (RefundPaid cid caller (cumulativeAmount (ledger s (cid, caller))))
           (mark_refunded cid caller s))"
proof -
  let ?s' = "send_transfer (RefundPaid cid caller (cumulativeAmount (ledger s (cid, caller))))
               (mark_refunded cid caller s)"
  let ?D = "c_donators (registry s ! cid)"
  let ?f = "\<lambda>a. if refundedFlag (ledger s (cid, a)) then cumulativeAmount (ledger s (cid, a)) else 0"
  let ?g = "\<lambda>a. if refundedFlag (ledger ?s' (cid, a)) then cumulativeAmount (ledger ?s' (cid, a)) else 0"
  have reg: "registry ?s' = registry s"
    by (simp add: send_transfer_def mark_refunded_def)
  have cum: "cumulativeAmount (ledger ?s' k) = cumulativeAmount (ledger s k)" for k
    by (simp add: send_transfer_def mark_refunded_def)
  have flag: "refundedFlag (ledger ?s' k) = (k = (cid, caller) \<or> refundedFlag (ledger s k))" for k
    by (simp add: send_transfer_def mark_refunded_def)
  have tr: "transfers ?s' = transfers s @ [RefundPaid cid caller (cumulativeAmount (ledger s (cid, caller)))]"
    by (simp add: send_transfer_def mark_refunded_def)
  have c1: "0 < cumulativeAmount (ledger s (k, a)) \<Longrightarrow>
            k < length (registry s) \<and> a \<in> set (c_donators (registry s ! k))" for k a
    using inv unfolding ledger_inv_def by blast
  have c2: "refundedFlag (ledger s (k, a)) \<Longrightarrow>
            k < length (registry s) \<and> c_state (registry s ! k) = Failed \<and>
            0 < cumulativeAmount (ledger s (k, a))" for k a
    using inv unfolding ledger_inv_def by blast
  have c3: "k < length (registry s) \<Longrightarrow>
            distinct (c_donators (registry s ! k)) \<and>
            c_amountCollected (registry s ! k) =
              (\<Sum>a\<leftarrow>c_donators (registry s ! k). cumulativeAmount (ledger s (k, a)))" for k
    using inv unfolding ledger_inv_def by blast
  have c4: "refunds_to k a (transfers s) =
            (if refundedFlag (ledger s (k, a)) then [cumulativeAmount (ledger s (k, a))] else [])"
    for k a
    using inv unfolding ledger_inv_def by blast
  have c5: "total_refunded k s =
            (if k < length (registry s)
             then (\<Sum>a\<leftarrow>c_donators (registry s ! k).
                     if refundedFlag (ledger s (k, a)) then cumulativeAmount (ledger s (k, a)) else 0)
             else 0)" for k
    using inv unfolding ledger_inv_def by blast
  have n1: "\<forall>k a. 0 < cumulativeAmount (ledger ?s' (k, a)) \<longrightarrow>
              k < length (registry ?s') \<and> a \<in> set (c_donators (registry ?s' ! k))"
    using c1 by (simp add: reg cum)
  have n2: "\<forall>k a. refundedFlag (ledger ?s' (k, a)) \<longrightarrow>
              k < length (registry ?s') \<and> c_state (registry ?s' ! k) = Failed \<and>
              0 < cumulativeAmount (ledger ?s' (k, a))"
    using c2 lt failed pos by (auto simp: reg cum flag)
  have n3: "\<forall>k < length (registry ?s').
              distinct (c_donators (registry ?s' ! k)) \<and>
              c_amountCollected (registry ?s' ! k) =
                (\<Sum>a\<leftarrow>c_donators (registry ?s' ! k). cumulativeAmount (ledger ?s' (k, a)))"
    using c3 by (simp add: reg cum)
  have n4: "\<forall>k a. refunds_to k a (transfers ?s') =
              (if refundedFlag (ledger ?s' (k, a)) then [cumulativeAmount (ledger ?s' (k, a))]
               else [])"
    using c4 fresh by (auto simp: tr cum flag refunds_to_append) (auto simp: refunds_to_def)
  have tot: "total_refunded k ?s' =
               total_refunded k s + (if k = cid then cumulativeAmount (ledger s (cid, caller)) else 0)"
    for k
    by (simp add: total_refunded_def tr refunds_append)
  have mem: "caller \<in> set ?D" using c1 [OF pos] by simp
  have dist: "distinct ?D" using c3 [OF lt] by simp
  have "sum_list (map ?g ?D) + ?f caller = sum_list (map ?f ?D) + ?g caller"
    by (rule sum_list_change_one [OF dist mem]) (simp add: cum flag)
  then have sum_cid: "sum_list (map ?g ?D) =
                      sum_list (map ?f ?D) + cumulativeAmount (ledger s (cid, caller))"
    using fresh by (simp add: cum flag)
  have sum_other: "k \<noteq> cid \<Longrightarrow>
      (\<Sum>a\<leftarrow>c_donators (registry s ! k).
          if refundedFlag (ledger ?s' (k, a)) then cumulativeAmount (ledger ?s' (k, a)) else 0) =
      (\<Sum>a\<leftarrow>c_donators (registry s ! k).
          if refundedFlag (ledger s (k, a)) then cumulativeAmount (ledger s (k, a)) else 0)" for k
    by (rule sum_list_same) (simp add: cum flag)
  have n5: "\<forall>k. total_refunded k ?s' =
              (if k < length (registry ?s')
               then (\<Sum>a\<leftarrow>c_donators (registry ?s' ! k).
                       if refundedFlag (ledger ?s' (k, a)) then cumulativeAmount (ledger ?s' (k, a))
                       else 0)
               else 0)"
  proof
    fix k
    show "total_refunded k ?s' =
              (if k < length (registry ?s')
               then (\<Sum>a\<leftarrow>c_donators (registry ?s' ! k).
                       if refundedFlag (ledger ?s' (k, a)) then cumulativeAmount (ledger ?s' (k, a))
                       else 0)
               else 0)"
    proof (cases "k = cid")
      case True
      then show ?thesis using lt sum_cid c5 [of cid] by (simp only: tot reg) simp
    next
      case False
      then show ?thesis using sum_other [OF False] c5 [of k] by (simp only: tot reg) simp
    qed
  qed
  show ?thesis
    unfolding ledger_inv_def using n1 n2 n3 n4 n5 by blast
qed

lemma ledger_inv_donate:
  assumes inv: "ledger_inv s" and lt: "cid < length (registry s)"
    and active: "c_state (registry s ! cid) = Active"
  shows "ledger_inv (book_contribution cid contributor v s)"
proof -
  let ?s' = "book_contribution cid contributor v s"
  let ?D = "c_donators (registry s ! cid)"
  let ?D' = "if contributor \<in> set ?D then ?D else ?D @ [contributor]"
  have len: "length (registry ?s') = length (registry s)"
    by (simp add: book_contribution_def Let_def)
  have other: "k \<noteq> cid \<Longrightarrow> registry ?s' ! k = registry s ! k" for k
    by (simp add: book_contribution_def Let_def)
  have don: "c_donators (registry ?s' ! cid) = ?D'"
    using lt by (simp add: book_contribution_def Let_def)
  have st: "c_state (registry ?s' ! cid) = Active"
    using lt active by (simp add: book_contribution_def Let_def)
  have amt: "c_amountCollected (registry ?s' ! cid) = c_amountCollected (registry s ! cid) + v"
    using lt by (simp add: book_contribution_def Let_def)
  have cum: "cumulativeAmount (ledger ?s' k) =
             cumulativeAmount (ledger s k) + (if k = (cid, contributor) then v else 0)" for k
    by (simp add: book_contribution_def Let_def)
  have flag: "refundedFlag (ledger ?s' k) = refundedFlag (ledger s k)" for k
    by (simp add: book_contribution_def Let_def)
  have tr: "transfers ?s' = transfers s"
    by (simp add: book_contribution_def Let_def)
  have c1: "0 < cumulativeAmount (ledger s (k, a)) \<Longrightarrow>
            k < length (registry s) \<and> a \<in> set (c_donators (registry s ! k))" for k a
    using inv unfolding ledger_inv_def by blast
  have c2: "refundedFlag (ledger s (k, a)) \<Longrightarrow>
            k < length (registry s) \<and> c_state (registry s ! k) = Failed \<and>
            0 < cumulativeAmount (ledger s (k, a))" for k a
    using inv unfolding ledger_inv_def by blast
  have c3: "k < length (registry s) \<Longrightarrow>
            distinct (c_donators (registry s ! k)) \<and>
            c_amountCollected (registry s ! k) =
              (\<Sum>a\<leftarrow>c_donators (registry s ! k). cumulativeAmount (ledger s (k, a)))" for k
    using inv unfolding ledger_inv_def by blast
  have c4: "refunds_to k a (transfers s) =
            (if refundedFlag (ledger s (k, a)) then [cumulativeAmount (ledger s (k, a))] else [])"
    for k a
    using inv unfolding ledger_inv_def by blast
  have c5: "total_refunded k s =
            (if k < length (registry s)
             then (\<Sum>a\<leftarrow>c_donators (registry s ! k).
                     if refundedFlag (ledger s (k, a)) then cumulativeAmount (ledger s (k, a)) else 0)
             else 0)" for k
    using inv unfolding ledger_inv_def by blast
  have noflag: "\<not> refundedFlag (ledger s (cid, a))" for a
    using c2 [of cid a] active by auto
  have n1: "\<forall>k a. 0 < cumulativeAmount (ledger ?s' (k, a)) \<longrightarrow>
              k < length (registry ?s') \<and> a \<in> set (c_donators (registry ?s' ! k))"
  proof (intro allI impI)
    fix k a assume p: "0 < cumulativeAmount (ledger ?s' (k, a))"
    show "k < length (registry ?s') \<and> a \<in> set (c_donators (registry ?s' ! k))"
    proof (cases "k = cid")
      case True
      show ?thesis
      proof (cases "a = contributor")
        case True
        then show ?thesis using \<open>k = cid\<close> lt by (simp add: len don)
      next
        case False
        then have "0 < cumulativeAmount (ledger s (cid, a))" using p True by (simp add: cum)
        then show ?thesis using c1 [of cid a] True by (simp add: len don)
      qed
    next
      case False
      then have "0 < cumulativeAmount (ledger s (k, a))" using p by (simp add: cum)
      then show ?thesis using c1 [of k a] False by (simp add: len other)
    qed
  qed
  have n2: "\<forall>k a. refundedFlag (ledger ?s' (k, a)) \<longrightarrow>
              k < length (registry ?s') \<and> c_state (registry ?s' ! k) = Failed \<and>
              0 < cumulativeAmount (ledger ?s' (k, a))"
  proof (intro allI impI)
    fix k a assume p: "refundedFlag (ledger ?s' (k, a))"
    then have q: "refundedFlag (ledger s (k, a))" by (simp add: flag)
    then have "k \<noteq> cid" using noflag by auto
    then show "k < length (registry ?s') \<and> c_state (registry ?s' ! k) = Failed \<and>
              0 < cumulativeAmount (ledger ?s' (k, a))"
      using c2 [OF q] by (simp add: len other cum)
  qed
  have sum_cid: "(\<Sum>a\<leftarrow>?D'. cumulativeAmount (ledger ?s' (cid, a))) =
                 (\<Sum>a\<leftarrow>?D. cumulativeAmount (ledger s (cid, a))) + v"
  proof (cases "contributor \<in> set ?D")
    case True
    have "(\<Sum>a\<leftarrow>?D. cumulativeAmount (ledger ?s' (cid, a))) + cumulativeAmount (ledger s (cid, contributor))
          = (\<Sum>a\<leftarrow>?D. cumulativeAmount (ledger s (cid, a))) + cumulativeAmount (ledger ?s' (cid, contributor))"
      using c3 [OF lt] True by (intro sum_list_change_one) (simp_all add: cum)
    then show ?thesis using True by (simp add: cum)
  next
    case False
    have zero: "cumulativeAmount (ledger s (cid, contributor)) = 0"
      using c1 [of cid contributor] False by auto
    have "(\<Sum>a\<leftarrow>?D. cumulativeAmount (ledger ?s' (cid, a))) =
          (\<Sum>a\<leftarrow>?D. cumulativeAmount (ledger s (cid, a)))"
      using False by (intro sum_list_same) (auto simp: cum)
    then show ?thesis using False zero by (simp add: cum)
  qed
  have n3: "\<forall>k < length (registry ?s').
              distinct (c_donators (registry ?s' ! k)) \<and>
              c_amountCollected (registry ?s' ! k) =
                (\<Sum>a\<leftarrow>c_donators (registry ?s' ! k). cumulativeAmount (ledger ?s' (k, a)))"
  proof (intro allI impI)
    fix k assume "k < length (registry ?s')"
    then have k: "k < length (registry s)" by (simp add: len)
    show "distinct (c_donators (registry ?s' ! k)) \<and>
              c_amountCollected (registry ?s' ! k) =
                (\<Sum>a\<leftarrow>c_donators (registry ?s' ! k). cumulativeAmount (ledger ?s' (k, a)))"
    proof (cases "k = cid")
      case True
      have "distinct ?D'" using c3 [OF lt] by simp
      then show ?thesis using True c3 [OF lt] sum_cid by (simp only: don amt)
    next
      case False
      then show ?thesis using c3 [OF k] by (simp add: other cum)
    qed
  qed
  have n4: "\<forall>k a. refunds_to k a (transfers ?s') =
              (if refundedFlag (ledger ?s' (k, a)) then [cumulativeAmount (ledger ?s' (k, a))]
               else [])"
  proof (intro allI)
    fix k a
    show "refunds_to k a (transfers ?s') =
              (if refundedFlag (ledger ?s' (k, a)) then [cumulativeAmount (ledger ?s' (k, a))]
               else [])"
      using c4 [of k a] noflag [of a] by (cases "k = cid") (auto simp: tr flag cum)
  qed
  have n5: "\<forall>k. total_refunded k ?s' =
              (if k < length (registry ?s')
               then (\<Sum>a\<leftarrow>c_donators (registry ?s' ! k).
                       if refundedFlag (ledger ?s' (k, a)) then cumulativeAmount (ledger ?s' (k, a))
                       else 0)
               else 0)"
  proof
    fix k
    have t: "total_refunded j ?s' = total_refunded j s" for j
      by (simp add: total_refunded_def tr)
    show "total_refunded k ?s' =
              (if k < length (registry ?s')
               then (\<Sum>a\<leftarrow>c_donators (registry ?s' ! k).
                       if refundedFlag (ledger ?s' (k, a)) then cumulativeAmount (ledger ?s' (k, a))
                       else 0)
               else 0)"
    proof (cases "k = cid")
      case True
      then show ?thesis using c5 [of cid] lt noflag by (simp add: t len flag)
    next
      case False
      have "(\<Sum>a\<leftarrow>c_donators (registry s ! k).
               if refundedFlag (ledger ?s' (k, a)) then cumulativeAmount (ledger ?s' (k, a)) else 0) =
            (\<Sum>a\<leftarrow>c_donators (registry s ! k).
               if refundedFlag (ledger s (k, a)) then cumulativeAmount (ledger s (k, a)) else 0)"
        using False by (intro sum_list_same) (simp add: flag cum)
      then show ?thesis using c5 [of k] False by (simp add: t len other)
    qed
  qed
  show ?thesis
    unfolding ledger_inv_def using n1 n2 n3 n4 n5 by blast
qed

lemma ledger_inv_exec: "ledger_inv s \<Longrightarrow> ledger_inv (snd (exec now c s))"
  by (rule exec_preserves(1) [where I = ledger_inv])
     (simp_all add: ledger_inv_create ledger_inv_donate ledger_inv_finalize ledger_inv_withdraw
        ledger_inv_refund)

lemma ledger_inv_reachable: "ledger_inv (run_calls tr init_store)"
  by (rule run_calls_preserves [where I = ledger_inv, OF ledger_inv_exec ledger_inv_init])

lemmas run_defs =
  cf_createCampaign_def add_campaign_def cf_recordContribution_def book_contribution_def
  cf_finalize_def set_decision_def decide_def withdraw_check_def refund_check_def
  mark_withdrawn_def mark_refunded_def send_transfer_def init_store_def Let_def

lemma scenario2_funded_facts:
  "length (registry (run_calls scenario2_calls init_store)) = 1"
  "c_state (registry (run_calls scenario2_calls init_store) ! 0) = Active"
  "c_deadline (registry (run_calls scenario2_calls init_store) ! 0) = 100"
  "c_target (registry (run_calls scenario2_calls init_store) ! 0) = 10"
  "c_amountCollected (registry (run_calls scenario2_calls init_store) ! 0) = 10"
  by (simp_all add: scenario2_calls_def run_defs)

lemma scenario2_successful_facts:
  "length (registry scenario2_successful) = 1"
  "c_state (registry scenario2_successful ! 0) = Successful"
  "c_owner (registry scenario2_successful ! 0) = ''0xA1''"
  "c_target (registry scenario2_successful ! 0) = 10"
  "c_amountCollected (registry scenario2_successful ! 0) = 10"
  "transfers scenario2_successful = []"
  by (simp_all add: scenario2_successful_def scenario2_calls_def run_defs)

lemma scenario3_facts:
  "length (registry (run_calls scenario3_calls init_store)) = 1"
  "c_state (registry (run_calls scenario3_calls init_store) ! 0) = Active"
  "c_deadline (registry (run_calls scenario3_calls init_store) ! 0) = 50"
  "c_target (registry (run_calls scenario3_calls init_store) ! 0) = 10"
  "c_amountCollected (registry (run_calls scenario3_calls init_store) ! 0) = 5"
  by (simp_all add: scenario3_calls_def run_defs)

lemma status_of_state:
  "ac_status (transformCampaign pf t (formatCampaign fe (campaign_info c) i dn ds)) =
     [''active'', ''successful'', ''failed'', ''withdrawn''] ! state_code (c_state c)"
  by (cases "c_state c")
     (simp_all add: transformCampaign_formatCampaign_status formatCampaign_status campaign_info_def)




text \<open>
  C1. Once the deadline of an \<open>Active\<close> campaign has passed, \<open>finalize\<close> decides
  \<open>Successful\<close> if \<open>amountCollected \<ge> target\<close> and \<open>Failed\<close> otherwise, and the status
  that the list view computes for the finalized campaign is \<open>successful\<close> or \<open>failed\<close>
  by the same rule. In every store that a history of calls can produce, a campaign with
  \<open>amountCollected \<ge> target\<close> is not \<open>Failed\<close> and is never presented as \<open>failed\<close>. The
  last conjunct is the list itself: entry \<open>k\<close> of the campaigns that \<open>loadCampaigns\<close>
  stores carries the status of the state of campaign \<open>k\<close>.
\<close>

theorem finalize_decision_presented:
  "(cid < length (registry s) \<and> c_state (registry s ! cid) = Active \<and>
    c_deadline (registry s ! cid) \<le> now \<longrightarrow>
      fst (exec now (FinalizeCampaign cid) s) =
        Inr (Decided (if c_target (registry s ! cid) \<le> c_amountCollected (registry s ! cid)
                      then Successful else Failed)) \<and>
      c_state (registry (snd (exec now (FinalizeCampaign cid) s)) ! cid) =
        (if c_target (registry s ! cid) \<le> c_amountCollected (registry s ! cid)
         then Successful else Failed) \<and>
      ac_status (transformCampaign pf t (formatCampaign fe
          (campaign_info (registry (snd (exec now (FinalizeCampaign cid) s)) ! cid)) i dn ds)) =
        (if c_target (registry s ! cid) \<le> c_amountCollected (registry s ! cid)
         then ''successful'' else ''failed'')) \<and>
   (cid < length (registry (run_calls tr init_store)) \<and>
    c_target (registry (run_calls tr init_store) ! cid)
      \<le> c_amountCollected (registry (run_calls tr init_store) ! cid) \<longrightarrow>
      c_state (registry (run_calls tr init_store) ! cid) \<noteq> Failed \<and>
      ac_status (transformCampaign pf t (formatCampaign fe
          (campaign_info (registry (run_calls tr init_store) ! cid)) i dn ds)) \<noteq> ''failed'') \<and>
   (\<not> u1 \<and> \<not> u2 \<and> \<not> u3 \<and> net \<and> k < length (registry s) \<and> k < 20 \<longrightarrow>
      ac_status (campaigns (loadCampaigns u1 u2 u3 u4 net (Inr (deployed now signer s))
                   fe pf ferr t st) ! k) =
        [''active'', ''successful'', ''failed'', ''withdrawn''] ! state_code (c_state (registry s ! k)))"
proof -
  have a: "cid < length (registry s) \<and> c_state (registry s ! cid) = Active \<and>
    c_deadline (registry s ! cid) \<le> now \<longrightarrow>
      fst (exec now (FinalizeCampaign cid) s) =
        Inr (Decided (if c_target (registry s ! cid) \<le> c_amountCollected (registry s ! cid)
                      then Successful else Failed)) \<and>
      c_state (registry (snd (exec now (FinalizeCampaign cid) s)) ! cid) =
        (if c_target (registry s ! cid) \<le> c_amountCollected (registry s ! cid)
         then Successful else Failed)"
    by (simp add: cf_finalize_def set_decision_def decide_def)
  have b: "cid < length (registry (run_calls tr init_store)) \<and>
    c_target (registry (run_calls tr init_store) ! cid)
      \<le> c_amountCollected (registry (run_calls tr init_store) ! cid) \<longrightarrow>
      c_state (registry (run_calls tr init_store) ! cid) \<noteq> Failed"
    using decisions_ok_reachable [of tr]
    by (auto simp: decisions_ok_def decided_ok_def)
  have c: "\<not> u1 \<and> \<not> u2 \<and> \<not> u3 \<and> net \<and> k < length (registry s) \<and> k < 20 \<longrightarrow>
      ac_status (campaigns (loadCampaigns u1 u2 u3 u4 net (Inr (deployed now signer s))
                   fe pf ferr t st) ! k) =
        [''active'', ''successful'', ''failed'', ''withdrawn''] ! state_code (c_state (registry s ! k))"
    by (simp add: loadCampaigns_campaigns nth_enumerate_eq status_of_state)
  show ?thesis
    using a b c
    by (simp add: status_of_state) (cases "c_state (registry (run_calls tr init_store) ! cid)"; simp)
qed

theorem finalize_decision_presented_witness:
  "0 < length (registry (run_calls scenario2_calls init_store)) \<and>
   c_state (registry (run_calls scenario2_calls init_store) ! 0) = Active \<and>
   c_deadline (registry (run_calls scenario2_calls init_store) ! 0) \<le> 100 \<and>
   c_target (registry (run_calls scenario2_calls init_store) ! 0)
     \<le> c_amountCollected (registry (run_calls scenario2_calls init_store) ! 0) \<and>
   fst (exec 100 (FinalizeCampaign 0) (run_calls scenario2_calls init_store)) =
     Inr (Decided Successful) \<and>
   ac_status (transformCampaign (\<lambda>a. 0) 200000 (formatCampaign toString
       (campaign_info (registry (snd (exec 100 (FinalizeCampaign 0)
          (run_calls scenario2_calls init_store))) ! 0)) 0 None None)) = ''successful'' \<and>
   \<not> c_target (registry (run_calls scenario3_calls init_store) ! 0)
     \<le> c_amountCollected (registry (run_calls scenario3_calls init_store) ! 0) \<and>
   ac_status (transformCampaign (\<lambda>a. 0) 200000 (formatCampaign toString
       (campaign_info (registry (snd (exec 60 (FinalizeCampaign 0)
          (run_calls scenario3_calls init_store))) ! 0)) 0 None None)) = ''failed'' \<and>
   0 < length (registry scenario2_successful) \<and>
   c_target (registry scenario2_successful ! 0)
     \<le> c_amountCollected (registry scenario2_successful ! 0) \<and>
   ac_status (transformCampaign (\<lambda>a. 0) 200000 (formatCampaign toString
       (campaign_info (registry scenario2_successful ! 0)) 0 None None)) \<noteq> ''failed'' \<and>
   ac_status (campaigns (loadCampaigns False False False False True
       (Inr (deployed 100 ''0xD0'' scenario2_successful)) toString (\<lambda>a. 0)
       (\<lambda>e :: unit call_error. ''failed to load'') 200000 initial_app_state) ! 0) = ''successful''"
proof -
  note f2 = scenario2_funded_facts
  note f3 = scenario3_facts
  note s2 = scenario2_successful_facts
  have a: "0 < length (registry (run_calls scenario2_calls init_store))" using f2 by simp
  have b: "c_deadline (registry (run_calls scenario2_calls init_store) ! 0) \<le> 100"
    using f2 by simp
  have c: "c_target (registry (run_calls scenario2_calls init_store) ! 0)
            \<le> c_amountCollected (registry (run_calls scenario2_calls init_store) ! 0)"
    using f2 by simp
  have a3: "0 < length (registry (run_calls scenario3_calls init_store))" using f3 by simp
  have b3: "c_deadline (registry (run_calls scenario3_calls init_store) ! 0) \<le> 60"
    using f3 by simp
  have c3: "\<not> c_target (registry (run_calls scenario3_calls init_store) ! 0)
            \<le> c_amountCollected (registry (run_calls scenario3_calls init_store) ! 0)"
    using f3 by simp
  have k: "0 < length (registry scenario2_successful)" using s2 by simp
  have st: "state_code (c_state (registry scenario2_successful ! 0)) = 1" using s2 by simp
  note t2 = finalize_decision_presented [where cid = 0
        and s = "run_calls scenario2_calls init_store" and now = 100 and pf = "\<lambda>a. 0"
        and t = 200000 and fe = toString and i = 0 and dn = None and ds = None
        and tr = "scenario2_calls @ [(100, FinalizeCampaign 0)]"
        and ?u1.0 = False and ?u2.0 = False and ?u3.0 = False and ?u4.0 = False
        and net = True and k = 0 and signer = "''0xD0''"
        and ferr = "\<lambda>e :: unit call_error. ''failed to load''" and st = initial_app_state]
  note t3 = finalize_decision_presented [where cid = 0
        and s = "run_calls scenario3_calls init_store" and now = 60 and pf = "\<lambda>a. 0"
        and t = 200000 and fe = toString and i = 0 and dn = None and ds = None
        and tr = "scenario2_calls @ [(100, FinalizeCampaign 0)]"
        and ?u1.0 = False and ?u2.0 = False and ?u3.0 = False and ?u4.0 = False
        and net = True and k = 0 and signer = "''0xD0''"
        and ferr = "\<lambda>e :: unit call_error. ''failed to load''" and st = initial_app_state]
  note t4 = finalize_decision_presented [where cid = 0
        and s = scenario2_successful and now = 100 and pf = "\<lambda>a. 0"
        and t = 200000 and fe = toString and i = 0 and dn = None and ds = None
        and tr = "scenario2_calls @ [(100, FinalizeCampaign 0)]"
        and ?u1.0 = False and ?u2.0 = False and ?u3.0 = False and ?u4.0 = False
        and net = True and k = 0 and signer = "''0xD0''"
        and ferr = "\<lambda>e :: unit call_error. ''failed to load''" and st = initial_app_state]
  have p2: "fst (exec 100 (FinalizeCampaign 0) (run_calls scenario2_calls init_store)) =
              Inr (Decided Successful) \<and>
            ac_status (transformCampaign (\<lambda>a. 0) 200000 (formatCampaign toString
              (campaign_info (registry (snd (exec 100 (FinalizeCampaign 0)
                (run_calls scenario2_calls init_store))) ! 0)) 0 None None)) = ''successful''"
    using t2 a b c f2(2) by (simp del: exec.simps)
  have p3: "ac_status (transformCampaign (\<lambda>a. 0) 200000 (formatCampaign toString
              (campaign_info (registry (snd (exec 60 (FinalizeCampaign 0)
                (run_calls scenario3_calls init_store))) ! 0)) 0 None None)) = ''failed''"
    using t3 a3 b3 c3 f3(2) by (simp del: exec.simps)
  have p4: "ac_status (campaigns (loadCampaigns False False False False True
       (Inr (deployed 100 ''0xD0'' scenario2_successful)) toString (\<lambda>a. 0)
       (\<lambda>e :: unit call_error. ''failed to load'') 200000 initial_app_state) ! 0) = ''successful''"
    using t4 k st by (simp del: exec.simps)
  have c5: "c_target (registry scenario2_successful ! 0)
              \<le> c_amountCollected (registry scenario2_successful ! 0)"
    using s2 by simp
  have p5: "ac_status (transformCampaign (\<lambda>a. 0) 200000 (formatCampaign toString
              (campaign_info (registry scenario2_successful ! 0)) 0 None None)) \<noteq> ''failed''"
    using t2 k c5 unfolding scenario2_successful_def by (simp del: exec.simps)
  show ?thesis
    using a f2(2) b c c3 p2 p3 p4 k c5 p5 by (simp del: exec.simps)
qed

lemma run_calls_append: "run_calls (xs @ ys) s = run_calls ys (run_calls xs s)"
  by (induction xs s rule: run_calls.induct) auto

lemma paid_out_stays_exec:
  "cid < length (registry s) \<and> c_owner (registry s ! cid) = ownr \<and>
     c_state (registry s ! cid) = Withdrawn \<Longrightarrow>
   cid < length (registry (snd (exec now c s))) \<and>
   c_owner (registry (snd (exec now c s)) ! cid) = ownr \<and>
   c_state (registry (snd (exec now c s)) ! cid) = Withdrawn"
  by (rule exec_preserves(1)
        [where I = "\<lambda>s. cid < length (registry s) \<and> c_owner (registry s ! cid) = ownr \<and>
                         c_state (registry s ! cid) = Withdrawn"])
     (auto simp: effect_defs Let_def nth_append nth_list_update)

lemma paid_out_stays_callback:
  "cid < length (registry s) \<and> c_owner (registry s ! cid) = ownr \<and>
     c_state (registry s ! cid) = Withdrawn \<Longrightarrow>
   cid < length (registry (run_callback now cs s)) \<and>
   c_owner (registry (run_callback now cs s) ! cid) = ownr \<and>
   c_state (registry (run_callback now cs s) ! cid) = Withdrawn"
  by (rule exec_preserves(2)
        [where I = "\<lambda>s. cid < length (registry s) \<and> c_owner (registry s ! cid) = ownr \<and>
                         c_state (registry s ! cid) = Withdrawn"])
     (auto simp: effect_defs Let_def nth_append nth_list_update)

lemma withdrawn_stays_run_calls:
  "cid < length (registry s) \<and> c_state (registry s ! cid) = Withdrawn \<Longrightarrow>
   cid < length (registry (run_calls tr s)) \<and>
   c_state (registry (run_calls tr s) ! cid) = Withdrawn"
  by (rule run_calls_preserves
        [where I = "\<lambda>s. cid < length (registry s) \<and> c_state (registry s ! cid) = Withdrawn"])
     (rule withdrawn_stays_exec)

lemma withdraw_rejected_when_withdrawn:
  "cid < length (registry s) \<Longrightarrow> c_state (registry s ! cid) = Withdrawn \<Longrightarrow>
   exec now (WithdrawFunds cid caller cb) s =
     (Inl (if caller = c_owner (registry s ! cid) then NotSuccessful else Unauthorized), s)"
  by (simp add: withdraw_check_def)

lemma withdraw_success:
  assumes "exec now (WithdrawFunds cid caller cb) s = (Inr r, s')"
  shows "cid < length (registry s) \<and> caller = c_owner (registry s ! cid) \<and>
         c_state (registry s ! cid) = Successful \<and>
         r = Paid (c_amountCollected (registry s ! cid)) \<and>
         s' = run_callback now cb
                (send_transfer (Payout cid caller (c_amountCollected (registry s ! cid)))
                   (mark_withdrawn cid s))"
  using assms by (auto simp: withdraw_check_def split: if_splits)

text \<open>
  C2. In every history the trace holds at most one payout for a campaign. A
  \<open>withdrawFunds\<close> that succeeds was called by the owner on a \<open>Successful\<close> campaign and
  pays \<open>amountCollected\<close>; the state is \<open>Withdrawn\<close> before the transfer is added to the
  trace, and the payee's calls run on the store so changed: a \<open>withdrawFunds\<close> for the
  same campaign that the payee (or anyone) makes at any point during the transfer is
  rejected and changes nothing, and so is every later one.
\<close>

theorem withdraw_once_state_first:
  "length (payouts cid (transfers (run_calls tr init_store))) \<le> 1 \<and>
   (exec now (WithdrawFunds cid caller cb) s = (Inr r, s') \<longrightarrow>
      cid < length (registry s) \<and> caller = c_owner (registry s ! cid) \<and>
      c_state (registry s ! cid) = Successful \<and>
      r = Paid (c_amountCollected (registry s ! cid)) \<and>
      c_state (registry (mark_withdrawn cid s) ! cid) = Withdrawn \<and>
      transfers (mark_withdrawn cid s) = transfers s \<and>
      s' = run_callback now cb
             (send_transfer (Payout cid caller (c_amountCollected (registry s ! cid)))
                (mark_withdrawn cid s)) \<and>
      (\<forall>pre caller' cb'.
         exec now (WithdrawFunds cid caller' cb')
           (run_callback now pre
              (send_transfer (Payout cid caller (c_amountCollected (registry s ! cid)))
                 (mark_withdrawn cid s))) =
         (Inl (if caller' = caller then NotSuccessful else Unauthorized),
          run_callback now pre
            (send_transfer (Payout cid caller (c_amountCollected (registry s ! cid)))
               (mark_withdrawn cid s)))) \<and>
      c_state (registry s' ! cid) = Withdrawn \<and>
      (\<forall>tr' now' caller' cb'.
         isl (fst (exec now' (WithdrawFunds cid caller' cb') (run_calls tr' s')))))"
proof -
  have once: "length (payouts cid (transfers (run_calls tr init_store))) \<le> 1"
    using payout_inv_reachable [of tr] by (simp add: payout_inv_def)
  have rest: "cid < length (registry s) \<and> caller = c_owner (registry s ! cid) \<and>
      c_state (registry s ! cid) = Successful \<and>
      r = Paid (c_amountCollected (registry s ! cid)) \<and>
      c_state (registry (mark_withdrawn cid s) ! cid) = Withdrawn \<and>
      transfers (mark_withdrawn cid s) = transfers s \<and>
      s' = run_callback now cb
             (send_transfer (Payout cid caller (c_amountCollected (registry s ! cid)))
                (mark_withdrawn cid s)) \<and>
      (\<forall>pre caller' cb'.
         exec now (WithdrawFunds cid caller' cb')
           (run_callback now pre
              (send_transfer (Payout cid caller (c_amountCollected (registry s ! cid)))
                 (mark_withdrawn cid s))) =
         (Inl (if caller' = caller then NotSuccessful else Unauthorized),
          run_callback now pre
            (send_transfer (Payout cid caller (c_amountCollected (registry s ! cid)))
               (mark_withdrawn cid s)))) \<and>
      c_state (registry s' ! cid) = Withdrawn \<and>
      (\<forall>tr' now' caller' cb'.
         isl (fst (exec now' (WithdrawFunds cid caller' cb') (run_calls tr' s'))))"
    if ok: "exec now (WithdrawFunds cid caller cb) s = (Inr r, s')"
  proof -
    let ?s1 = "send_transfer (Payout cid caller (c_amountCollected (registry s ! cid)))
                 (mark_withdrawn cid s)"
    note w = withdraw_success [OF ok]
    have lt: "cid < length (registry s)" using w by simp
    have s1: "cid < length (registry ?s1) \<and> c_owner (registry ?s1 ! cid) = caller \<and>
              c_state (registry ?s1 ! cid) = Withdrawn"
      using w by (simp add: send_transfer_def mark_withdrawn_def)
    have during: "exec now (WithdrawFunds cid caller' cb') (run_callback now pre ?s1) =
         (Inl (if caller' = caller then NotSuccessful else Unauthorized), run_callback now pre ?s1)"
      for pre caller' cb'
      using paid_out_stays_callback [OF s1, of now pre]
      by (simp add: withdraw_rejected_when_withdrawn del: exec.simps)
    have after: "cid < length (registry s') \<and> c_state (registry s' ! cid) = Withdrawn"
      using paid_out_stays_callback [OF s1, of now cb] w by simp
    have later: "isl (fst (exec now' (WithdrawFunds cid caller' cb') (run_calls tr' s')))"
      for tr' now' caller' cb'
      using withdrawn_stays_run_calls [OF after, of tr']
      by (simp add: withdraw_rejected_when_withdrawn del: exec.simps)
    have m: "c_state (registry (mark_withdrawn cid s) ! cid) = Withdrawn \<and>
             transfers (mark_withdrawn cid s) = transfers s"
      using lt by (simp add: mark_withdrawn_def)
    show ?thesis using w m during after later by blast
  qed
  show ?thesis using once rest by blast
qed

theorem withdraw_once_state_first_witness:
  "fst (exec 110 (WithdrawFunds 0 ''0xA1'' [WithdrawFunds 0 ''0xA1'' []]) scenario2_successful)
     = Inr (Paid 10) \<and>
   c_owner (registry scenario2_successful ! 0) = ''0xA1'' \<and>
   c_state (registry scenario2_successful ! 0) = Successful \<and>
   c_amountCollected (registry scenario2_successful ! 0) = 10 \<and>
   c_state (registry (snd (exec 110 (WithdrawFunds 0 ''0xA1'' [WithdrawFunds 0 ''0xA1'' []])
      scenario2_successful)) ! 0) = Withdrawn \<and>
   payouts 0 (transfers (snd (exec 110 (WithdrawFunds 0 ''0xA1'' [WithdrawFunds 0 ''0xA1'' []])
      scenario2_successful))) = [(''0xA1'', 10)] \<and>
   fst (exec 110 (WithdrawFunds 0 ''0xA1'' [])
          (run_callback 110 []
             (send_transfer (Payout 0 ''0xA1'' 10) (mark_withdrawn 0 scenario2_successful))))
     = Inl NotSuccessful \<and>
   isl (fst (exec 120 (WithdrawFunds 0 ''0xA1'' [])
          (run_calls []
             (snd (exec 110 (WithdrawFunds 0 ''0xA1'' [WithdrawFunds 0 ''0xA1'' []])
                scenario2_successful))))) \<and>
   length (payouts 0 (transfers (run_calls
       (scenario2_calls @
          [(100, FinalizeCampaign 0),
           (110, WithdrawFunds 0 ''0xA1'' [WithdrawFunds 0 ''0xA1'' []]),
           (120, WithdrawFunds 0 ''0xA1'' [])]) init_store))) \<le> 1"
proof -
  let ?c = "WithdrawFunds 0 ''0xA1'' [WithdrawFunds 0 ''0xA1'' []]"
  let ?s' = "snd (exec 110 ?c scenario2_successful)"
  note s2 = scenario2_successful_facts
  have r: "fst (exec 110 ?c scenario2_successful) = Inr (Paid 10)"
    using s2 by (simp add: withdraw_check_def)
  then have ok: "exec 110 ?c scenario2_successful = (Inr (Paid 10), ?s')"
    by (simp only: prod_eq_iff fst_conv snd_conv simp_thms)
  have pay: "payouts 0 (transfers ?s') = [(''0xA1'', 10)]"
    using s2 by (simp add: withdraw_check_def mark_withdrawn_def send_transfer_def)
  note t = withdraw_once_state_first [where cid = 0
        and tr = "scenario2_calls @
          [(100, FinalizeCampaign 0),
           (110, WithdrawFunds 0 ''0xA1'' [WithdrawFunds 0 ''0xA1'' []]),
           (120, WithdrawFunds 0 ''0xA1'' [])]"
        and now = 110 and caller = "''0xA1''" and cb = "[WithdrawFunds 0 ''0xA1'' []]"
        and s = scenario2_successful and r = "Paid 10" and s' = ?s']
  have once: "length (payouts 0 (transfers (run_calls
       (scenario2_calls @
          [(100, FinalizeCampaign 0),
           (110, WithdrawFunds 0 ''0xA1'' [WithdrawFunds 0 ''0xA1'' []]),
           (120, WithdrawFunds 0 ''0xA1'' [])]) init_store))) \<le> 1"
    using t by (rule conjunct1)
  note t2 = t [THEN conjunct2, THEN mp, OF ok]
  have rest: "c_state (registry ?s' ! 0) = Withdrawn"
    using t2 by (elim conjE)
  have during: "\<forall>pre caller' cb'.
         exec 110 (WithdrawFunds 0 caller' cb')
           (run_callback 110 pre
              (send_transfer (Payout 0 ''0xA1'' (c_amountCollected (registry scenario2_successful ! 0)))
                 (mark_withdrawn 0 scenario2_successful))) =
         (Inl (if caller' = ''0xA1'' then NotSuccessful else Unauthorized),
          run_callback 110 pre
            (send_transfer (Payout 0 ''0xA1'' (c_amountCollected (registry scenario2_successful ! 0)))
               (mark_withdrawn 0 scenario2_successful)))"
    using t2 by (elim conjE)
  have later: "\<forall>tr' now' caller' cb'.
         isl (fst (exec now' (WithdrawFunds 0 caller' cb') (run_calls tr' ?s')))"
    using t2 by (elim conjE)
  have d: "fst (exec 110 (WithdrawFunds 0 ''0xA1'' [])
          (run_callback 110 []
             (send_transfer (Payout 0 ''0xA1'' 10) (mark_withdrawn 0 scenario2_successful))))
     = Inl NotSuccessful"
    using during [rule_format, of "''0xA1''" "[]" "[]"] s2(5) by (simp del: exec.simps)
  have l: "isl (fst (exec 120 (WithdrawFunds 0 ''0xA1'' []) (run_calls [] ?s')))"
    using later by blast
  show ?thesis
    using r s2(2,3,5) rest pay d l once by (intro conjI)
qed

lemma failed_stays_exec:
  "cid < length (registry s) \<and> c_state (registry s ! cid) = Failed \<Longrightarrow>
   cid < length (registry (snd (exec now c s))) \<and>
   c_state (registry (snd (exec now c s)) ! cid) = Failed"
  by (rule exec_preserves(1)
        [where I = "\<lambda>s. cid < length (registry s) \<and> c_state (registry s ! cid) = Failed"])
     (auto simp: effect_defs Let_def nth_append nth_list_update)

lemma failed_stays_run_calls:
  "cid < length (registry s) \<and> c_state (registry s ! cid) = Failed \<Longrightarrow>
   cid < length (registry (run_calls tr s)) \<and>
   c_state (registry (run_calls tr s) ! cid) = Failed"
  by (rule run_calls_preserves
        [where I = "\<lambda>s. cid < length (registry s) \<and> c_state (registry s ! cid) = Failed"])
     (rule failed_stays_exec)

lemma refunded_stays_exec:
  "cid < length (registry s) \<and> c_state (registry s ! cid) = Failed \<and>
     refundedFlag (ledger s (cid, a)) \<Longrightarrow>
   cid < length (registry (snd (exec now c s))) \<and>
   c_state (registry (snd (exec now c s)) ! cid) = Failed \<and>
   refundedFlag (ledger (snd (exec now c s)) (cid, a))"
  by (rule exec_preserves(1)
        [where I = "\<lambda>s. cid < length (registry s) \<and> c_state (registry s ! cid) = Failed \<and>
                         refundedFlag (ledger s (cid, a))"])
     (auto simp: effect_defs Let_def nth_append nth_list_update)

lemma refunded_stays_run_calls:
  "cid < length (registry s) \<and> c_state (registry s ! cid) = Failed \<and>
     refundedFlag (ledger s (cid, a)) \<Longrightarrow>
   cid < length (registry (run_calls tr s)) \<and>
   c_state (registry (run_calls tr s) ! cid) = Failed \<and>
   refundedFlag (ledger (run_calls tr s) (cid, a))"
  by (rule run_calls_preserves
        [where I = "\<lambda>s. cid < length (registry s) \<and> c_state (registry s ! cid) = Failed \<and>
                         refundedFlag (ledger s (cid, a))"])
     (rule refunded_stays_exec)

lemma refund_rejected_when_refunded:
  "cid < length (registry s) \<Longrightarrow> c_state (registry s ! cid) = Failed \<Longrightarrow>
   refundedFlag (ledger s (cid, caller)) \<Longrightarrow>
   exec now (ClaimRefund cid caller cb) s = (Inl NothingToRefund, s)"
  by (simp add: refund_check_def)

lemma refund_success:
  assumes "exec now (ClaimRefund cid caller cb) s = (Inr r, s')"
  shows "cid < length (registry s) \<and> c_state (registry s ! cid) = Failed \<and>
         \<not> refundedFlag (ledger s (cid, caller)) \<and> 0 < cf_getContribution cid caller s \<and>
         r = Paid (cf_getContribution cid caller s) \<and>
         s' = run_callback now cb
                (send_transfer (RefundPaid cid caller (cf_getContribution cid caller s))
                   (mark_refunded cid caller s))"
  using assms by (auto simp: refund_check_def cf_getContribution_def split: if_splits)

lemma sum_list_split_if:
  fixes f :: "'a \<Rightarrow> nat"
  shows "(\<Sum>x\<leftarrow>xs. if P x then f x else 0) + (\<Sum>x\<leftarrow>xs. if P x then 0 else f x) = (\<Sum>x\<leftarrow>xs. f x)"
  by (induction xs) auto

lemma sum_list_all_if:
  fixes f :: "'a \<Rightarrow> nat"
  shows "\<forall>x\<in>set xs. P x \<Longrightarrow> (\<Sum>x\<leftarrow>xs. if P x then 0 else f x) = 0"
  by (induction xs) auto

lemma refunds_balance:
  assumes "ledger_inv s" and "cid < length (registry s)"
  shows "total_refunded cid s + outstanding cid s = c_amountCollected (registry s ! cid)"
proof -
  have t: "total_refunded cid s =
           (\<Sum>a\<leftarrow>c_donators (registry s ! cid).
              if refundedFlag (ledger s (cid, a)) then cumulativeAmount (ledger s (cid, a)) else 0)"
    using assms unfolding ledger_inv_def by simp
  have c: "c_amountCollected (registry s ! cid) =
           (\<Sum>a\<leftarrow>c_donators (registry s ! cid). cumulativeAmount (ledger s (cid, a)))"
    using assms unfolding ledger_inv_def by blast
  show ?thesis
    unfolding t c outstanding_def by (rule sum_list_split_if)
qed

lemma finalize_failed:
  assumes "fst (exec now (FinalizeCampaign cid) s) = Inr (Decided Failed)"
  shows "cid < length (registry (snd (exec now (FinalizeCampaign cid) s))) \<and>
         c_state (registry (snd (exec now (FinalizeCampaign cid) s)) ! cid) = Failed \<and>
         c_amountCollected (registry (snd (exec now (FinalizeCampaign cid) s)) ! cid) =
           c_amountCollected (registry s ! cid)"
  using assms by (auto simp: cf_finalize_def set_decision_def split: if_splits)

lemma ledger_inv_refunds_to:
  "ledger_inv s \<Longrightarrow>
   refunds_to cid a (transfers s) =
     (if refundedFlag (ledger s (cid, a)) then [cf_getContribution cid a s] else [])"
  by (simp add: ledger_inv_def cf_getContribution_def)

lemma refund_claimed:
  assumes ok: "exec now (ClaimRefund cid caller cb) s = (Inr r, s')"
  shows "cid < length (registry s) \<and> c_state (registry s ! cid) = Failed \<and>
      \<not> refundedFlag (ledger s (cid, caller)) \<and> 0 < cf_getContribution cid caller s \<and>
      r = Paid (cf_getContribution cid caller s) \<and>
      refundedFlag (ledger (mark_refunded cid caller s) (cid, caller)) \<and>
      cf_getContribution cid caller (mark_refunded cid caller s) = cf_getContribution cid caller s \<and>
      transfers (mark_refunded cid caller s) = transfers s \<and>
      s' = run_callback now cb
             (send_transfer (RefundPaid cid caller (cf_getContribution cid caller s))
                (mark_refunded cid caller s)) \<and>
      (\<forall>pre cb'.
         exec now (ClaimRefund cid caller cb')
           (run_callback now pre
              (send_transfer (RefundPaid cid caller (cf_getContribution cid caller s))
                 (mark_refunded cid caller s))) =
         (Inl NothingToRefund,
          run_callback now pre
            (send_transfer (RefundPaid cid caller (cf_getContribution cid caller s))
               (mark_refunded cid caller s)))) \<and>
      (\<forall>tr' now' cb'.
         exec now' (ClaimRefund cid caller cb') (run_calls tr' s') =
           (Inl NothingToRefund, run_calls tr' s'))"
proof -
  let ?s1 = "send_transfer (RefundPaid cid caller (cf_getContribution cid caller s))
               (mark_refunded cid caller s)"
  note w = refund_success [OF ok]
  have s1: "cid < length (registry ?s1) \<and> c_state (registry ?s1 ! cid) = Failed \<and>
            refundedFlag (ledger ?s1 (cid, caller))"
    using w by (simp add: send_transfer_def mark_refunded_def)
  have during: "\<forall>pre cb'. exec now (ClaimRefund cid caller cb') (run_callback now pre ?s1) =
       (Inl NothingToRefund, run_callback now pre ?s1)"
  proof (intro allI)
    fix pre cb'
    show "exec now (ClaimRefund cid caller cb') (run_callback now pre ?s1) =
       (Inl NothingToRefund, run_callback now pre ?s1)"
      using refunded_stays_callback [OF s1, of now pre]
      by (simp add: refund_rejected_when_refunded del: exec.simps)
  qed
  have after: "cid < length (registry s') \<and> c_state (registry s' ! cid) = Failed \<and>
               refundedFlag (ledger s' (cid, caller))"
    using refunded_stays_callback [OF s1, of now cb] w by simp
  have later: "\<forall>tr' now' cb'. exec now' (ClaimRefund cid caller cb') (run_calls tr' s') =
         (Inl NothingToRefund, run_calls tr' s')"
  proof (intro allI)
    fix tr' now' cb'
    show "exec now' (ClaimRefund cid caller cb') (run_calls tr' s') =
         (Inl NothingToRefund, run_calls tr' s')"
      using refunded_stays_run_calls [OF after, of tr']
      by (simp add: refund_rejected_when_refunded del: exec.simps)
  qed
  have m: "refundedFlag (ledger (mark_refunded cid caller s) (cid, caller)) \<and>
           cf_getContribution cid caller (mark_refunded cid caller s) =
             cf_getContribution cid caller s \<and>
           transfers (mark_refunded cid caller s) = transfers s"
    by (simp add: mark_refunded_def cf_getContribution_def)
  show ?thesis
    using w m during later by (intro conjI) simp_all
qed

lemma refunds_after_failed_finalize:
  assumes fin: "fst (exec now (FinalizeCampaign cid) (run_calls tr init_store)) = Inr (Decided Failed)"
  shows "(let atFinalize = c_amountCollected (registry (run_calls tr init_store) ! cid);
           s2 = run_calls (tr @ (now, FinalizeCampaign cid) # tr2) init_store
       in c_state (registry s2 ! cid) = Failed \<and>
          c_amountCollected (registry s2 ! cid) = atFinalize \<and>
          total_refunded cid s2 + outstanding cid s2 = atFinalize \<and>
          total_refunded cid s2 \<le> atFinalize \<and>
          ((\<forall>d \<in> set (c_donators (registry s2 ! cid)). refundedFlag (ledger s2 (cid, d))) \<longrightarrow>
             total_refunded cid s2 = atFinalize))"
proof -
  let ?s0 = "run_calls tr init_store"
  let ?s1 = "snd (exec now (FinalizeCampaign cid) ?s0)"
  let ?s2 = "run_calls (tr @ (now, FinalizeCampaign cid) # tr2) init_store"
  have s2: "?s2 = run_calls tr2 ?s1" by (simp add: run_calls_append)
  note f = finalize_failed [OF fin]
  have st: "cid < length (registry ?s2) \<and> c_state (registry ?s2 ! cid) = Failed"
    unfolding s2 by (rule failed_stays_run_calls) (use f in blast)
  have "cid < length (registry ?s1) \<and> c_state (registry ?s1 ! cid) \<noteq> Active \<and>
        c_amountCollected (registry ?s1 ! cid) = c_amountCollected (registry ?s0 ! cid)"
    using f by simp
  from frozen_run_calls [OF this, of tr2]
  have am: "c_amountCollected (registry ?s2 ! cid) = c_amountCollected (registry ?s0 ! cid)"
    unfolding s2 by (rule conjunct2 [THEN conjunct2])
  have inv: "ledger_inv ?s2" by (rule ledger_inv_reachable)
  have lt: "cid < length (registry ?s2)" using st by (rule conjunct1)
  have bal: "total_refunded cid ?s2 + outstanding cid ?s2 = c_amountCollected (registry ?s0 ! cid)"
    using refunds_balance [OF inv lt] am by (simp only:)
  have all: "(\<forall>d \<in> set (c_donators (registry ?s2 ! cid)). refundedFlag (ledger ?s2 (cid, d))) \<Longrightarrow>
             outstanding cid ?s2 = 0"
    unfolding outstanding_def by (rule sum_list_all_if)
  have le: "total_refunded cid ?s2 \<le> c_amountCollected (registry ?s0 ! cid)"
    using bal by (rule subst) (rule le_add1)
  have eq: "(\<forall>d \<in> set (c_donators (registry ?s2 ! cid)). refundedFlag (ledger ?s2 (cid, d))) \<longrightarrow>
             total_refunded cid ?s2 = c_amountCollected (registry ?s0 ! cid)"
  proof
    assume "\<forall>d \<in> set (c_donators (registry ?s2 ! cid)). refundedFlag (ledger ?s2 (cid, d))"
    then have "outstanding cid ?s2 = 0" by (rule all)
    then show "total_refunded cid ?s2 = c_amountCollected (registry ?s0 ! cid)"
      using bal by (simp only: add_0_right)
  qed
  have stf: "c_state (registry ?s2 ! cid) = Failed" using st by (rule conjunct2)
  show ?thesis
    unfolding Let_def using stf am bal le eq by (intro conjI)
qed

text \<open>
  C3. In every history the trace holds, for each pair of campaign and contributor, one
  refund of exactly the contributor's recorded cumulative contribution if the pair is
  marked refunded, and none otherwise. A \<open>claimRefund\<close> that succeeds was made on a
  \<open>Failed\<close> campaign by a contributor not yet refunded; the pair is marked before the
  transfer is added to the trace and the recorded amount is kept; a \<open>claimRefund\<close> of the
  same pair during the transfer or at any later time fails with \<open>NothingToRefund\<close>. After
  a \<open>finalize\<close> that decides \<open>Failed\<close>, \<open>amountCollected\<close> stays what it was at that
  moment; the refunds paid and the contributions not yet refunded add up to it, so the
  refunds never exceed it and are equal to it once every donor has claimed.
\<close>

theorem refund_once_exact:
  "refunds_to cid a (transfers (run_calls tr init_store)) =
     (if refundedFlag (ledger (run_calls tr init_store) (cid, a))
      then [cf_getContribution cid a (run_calls tr init_store)] else []) \<and>
   (exec now (ClaimRefund cid caller cb) s = (Inr r, s') \<longrightarrow>
      cid < length (registry s) \<and> c_state (registry s ! cid) = Failed \<and>
      \<not> refundedFlag (ledger s (cid, caller)) \<and> 0 < cf_getContribution cid caller s \<and>
      r = Paid (cf_getContribution cid caller s) \<and>
      refundedFlag (ledger (mark_refunded cid caller s) (cid, caller)) \<and>
      cf_getContribution cid caller (mark_refunded cid caller s) = cf_getContribution cid caller s \<and>
      transfers (mark_refunded cid caller s) = transfers s \<and>
      s' = run_callback now cb
             (send_transfer (RefundPaid cid caller (cf_getContribution cid caller s))
                (mark_refunded cid caller s)) \<and>
      (\<forall>pre cb'.
         exec now (ClaimRefund cid caller cb')
           (run_callback now pre
              (send_transfer (RefundPaid cid caller (cf_getContribution cid caller s))
                 (mark_refunded cid caller s))) =
         (Inl NothingToRefund,
          run_callback now pre
            (send_transfer (RefundPaid cid caller (cf_getContribution cid caller s))
               (mark_refunded cid caller s)))) \<and>
      (\<forall>tr' now' cb'.
         exec now' (ClaimRefund cid caller cb') (run_calls tr' s') =
           (Inl NothingToRefund, run_calls tr' s'))) \<and>
   (fst (exec tf (FinalizeCampaign cid) (run_calls tr init_store)) = Inr (Decided Failed) \<longrightarrow>
      (let atFinalize = c_amountCollected (registry (run_calls tr init_store) ! cid);
           s2 = run_calls (tr @ (tf, FinalizeCampaign cid) # tr2) init_store
       in c_state (registry s2 ! cid) = Failed \<and>
          c_amountCollected (registry s2 ! cid) = atFinalize \<and>
          total_refunded cid s2 + outstanding cid s2 = atFinalize \<and>
          total_refunded cid s2 \<le> atFinalize \<and>
          ((\<forall>d \<in> set (c_donators (registry s2 ! cid)). refundedFlag (ledger s2 (cid, d))) \<longrightarrow>
             total_refunded cid s2 = atFinalize)))"
proof -
  have once: "refunds_to cid a (transfers (run_calls tr init_store)) =
     (if refundedFlag (ledger (run_calls tr init_store) (cid, a))
      then [cf_getContribution cid a (run_calls tr init_store)] else [])"
    by (rule ledger_inv_refunds_to [OF ledger_inv_reachable])
  show ?thesis
    by (rule conjI [OF once conjI [OF impI impI]])
       (erule refund_claimed, erule refunds_after_failed_finalize)
qed

lemma scenario3_failed_facts:
  "length (registry scenario3_failed) = 1"
  "c_state (registry scenario3_failed ! 0) = Failed"
  "cf_getContribution 0 ''0xAA'' scenario3_failed = 3"
  "refundedFlag (ledger scenario3_failed (0, ''0xAA'')) = False"
  by (simp_all add: scenario3_failed_def scenario3_calls_def cf_getContribution_def run_defs)

lemma scenario3_refunded_facts:
  "c_donators (registry (run_calls (scenario3_calls @ (60, FinalizeCampaign 0) # scenario3_refunds)
      init_store) ! 0) = [''0xAA'', ''0xBB'']"
  "refundedFlag (ledger (run_calls (scenario3_calls @ (60, FinalizeCampaign 0) # scenario3_refunds)
      init_store) (0, ''0xAA''))"
  "refundedFlag (ledger (run_calls (scenario3_calls @ (60, FinalizeCampaign 0) # scenario3_refunds)
      init_store) (0, ''0xBB''))"
  by (simp_all add: scenario3_calls_def scenario3_refunds_def run_defs)

theorem refund_once_exact_witness:
  "fst (exec 70 (ClaimRefund 0 ''0xAA'' [ClaimRefund 0 ''0xAA'' []]) scenario3_failed)
     = Inr (Paid 3) \<and>
   cf_getContribution 0 ''0xAA'' scenario3_failed = 3 \<and>
   fst (exec 70 (ClaimRefund 0 ''0xAA'' [])
          (run_callback 70 []
             (send_transfer (RefundPaid 0 ''0xAA'' 3) (mark_refunded 0 ''0xAA'' scenario3_failed))))
     = Inl NothingToRefund \<and>
   refunds_to 0 ''0xAA'' (transfers (run_calls
       (scenario3_calls @ (60, FinalizeCampaign 0) # scenario3_refunds) init_store)) = [3] \<and>
   fst (exec 60 (FinalizeCampaign 0) (run_calls scenario3_calls init_store))
     = Inr (Decided Failed) \<and>
   c_amountCollected (registry (run_calls scenario3_calls init_store) ! 0) = 5 \<and>
   list_all
     (\<lambda>d. refundedFlag (ledger (run_calls
         (scenario3_calls @ (60, FinalizeCampaign 0) # scenario3_refunds) init_store) (0, d)))
     (c_donators (registry (run_calls
         (scenario3_calls @ (60, FinalizeCampaign 0) # scenario3_refunds) init_store) ! 0)) \<and>
   total_refunded 0 (run_calls
       (scenario3_calls @ (60, FinalizeCampaign 0) # scenario3_refunds) init_store) = 5"
proof -
  let ?c = "ClaimRefund 0 ''0xAA'' [ClaimRefund 0 ''0xAA'' []]"
  let ?s' = "snd (exec 70 ?c scenario3_failed)"
  let ?full = "scenario3_calls @ (60, FinalizeCampaign 0) # scenario3_refunds"
  note f = scenario3_failed_facts
  note g = scenario3_refunded_facts
  note h = scenario3_facts
  have r: "fst (exec 70 ?c scenario3_failed) = Inr (Paid 3)"
    using f by (simp add: refund_check_def cf_getContribution_def)
  then have ok: "exec 70 ?c scenario3_failed = (Inr (Paid 3), ?s')"
    by (simp only: prod_eq_iff fst_conv snd_conv simp_thms)
  have fin: "fst (exec 60 (FinalizeCampaign 0) (run_calls scenario3_calls init_store))
               = Inr (Decided Failed)"
    using h by (simp add: cf_finalize_def decide_def)
  have all: "\<forall>d \<in> set (c_donators (registry (run_calls ?full init_store) ! 0)).
               refundedFlag (ledger (run_calls ?full init_store) (0, d))"
    using g by simp
  note t = refund_once_exact [where cid = 0 and a = "''0xAA''" and tr = ?full
        and now = 70 and caller = "''0xAA''" and cb = "[ClaimRefund 0 ''0xAA'' []]"
        and s = scenario3_failed and r = "Paid 3" and s' = ?s'
        and tf = 60 and ?tr2.0 = scenario3_refunds]
  note u = refund_once_exact [where cid = 0 and a = "''0xAA''" and tr = scenario3_calls
        and now = 70 and caller = "''0xAA''" and cb = "[ClaimRefund 0 ''0xAA'' []]"
        and s = scenario3_failed and r = "Paid 3" and s' = ?s'
        and tf = 60 and ?tr2.0 = scenario3_refunds]
  have once: "refunds_to 0 ''0xAA'' (transfers (run_calls ?full init_store)) = [3]"
  proof -
    have "cf_getContribution 0 ''0xAA'' (run_calls ?full init_store) = 3"
      by (simp add: scenario3_calls_def scenario3_refunds_def cf_getContribution_def run_defs)
    then show ?thesis using t [THEN conjunct1] g(2) by (simp del: exec.simps run_calls.simps)
  qed
  note t2 = t [THEN conjunct2, THEN conjunct1, THEN mp, OF ok]
  have during: "\<forall>pre cb'.
         exec 70 (ClaimRefund 0 ''0xAA'' cb')
           (run_callback 70 pre
              (send_transfer (RefundPaid 0 ''0xAA'' (cf_getContribution 0 ''0xAA'' scenario3_failed))
                 (mark_refunded 0 ''0xAA'' scenario3_failed))) =
         (Inl NothingToRefund,
          run_callback 70 pre
            (send_transfer (RefundPaid 0 ''0xAA'' (cf_getContribution 0 ''0xAA'' scenario3_failed))
               (mark_refunded 0 ''0xAA'' scenario3_failed)))"
    using t2 by (elim conjE)
  have d: "fst (exec 70 (ClaimRefund 0 ''0xAA'' [])
          (run_callback 70 []
             (send_transfer (RefundPaid 0 ''0xAA'' 3) (mark_refunded 0 ''0xAA'' scenario3_failed))))
     = Inl NothingToRefund"
    using during [rule_format, of "[]" "[]"] f(3) by (simp del: exec.simps)
  note u3 = u [THEN conjunct2, THEN conjunct2, THEN mp, OF fin, unfolded Let_def]
  have tot: "total_refunded 0 (run_calls ?full init_store) = 5"
    using u3 all h(5) by (simp del: exec.simps run_calls.simps)
  have la: "list_all
     (\<lambda>d. refundedFlag (ledger (run_calls ?full init_store) (0, d)))
     (c_donators (registry (run_calls ?full init_store) ! 0))"
    using all by (simp only: list_all_iff)
  show ?thesis
    using r f(3) d once fin h(5) la tot by (intro conjI)
qed

end
